theory Spec2Isabelle
  imports Main "HOL-Library.Multiset"
begin

section \<open>Go strings\<close>

text \<open>
  A Go string is a sequence of bytes; \<open>string\<close> (a list of 8-bit characters) is the
  same thing.  The functions of package \<open>strings\<close> that the repository calls are
  written out here with the meaning the Go library gives them.
\<close>

text \<open>\<open>strings.HasPrefix(s, p)\<close>: \<open>len(s) >= len(p) && s[:len(p)] == p\<close>.\<close>

definition HasPrefix :: "string \<Rightarrow> string \<Rightarrow> bool" where
  "HasPrefix s p = (length p \<le> length s \<and> take (length p) s = p)"

text \<open>\<open>strings.ReplaceAll(s, old, new)\<close> for one-byte \<open>old\<close> and \<open>new\<close>.\<close>

definition ReplaceAll :: "string \<Rightarrow> char \<Rightarrow> char \<Rightarrow> string" where
  "ReplaceAll s old new = map (\<lambda>c. if c = old then new else c) s"

definition backslash :: char where
  "backslash = CHR 0x5C"

definition newline :: char where
  "newline = CHR 0x0A"

text \<open>
  \<open>strings.Split(s, sep)\<close> for a one-byte separator: the pieces between the
  separators, one more piece than there are separators; the empty string gives one
  empty piece.
\<close>

fun Split :: "string \<Rightarrow> char \<Rightarrow> string list" where
  "Split [] sep = [[]]"
| "Split (c # cs) sep =
     (if c = sep then [] # Split cs sep
      else (case Split cs sep of
              [] \<Rightarrow> [[c]]
            | piece # pieces \<Rightarrow> (c # piece) # pieces))"

text \<open>
  \<open>unicode.IsSpace\<close>: the UTF-8 encodings of the white-space code points
  U+0009 .. U+000D, U+0020, U+0085, U+00A0, U+1680, U+2000 .. U+200A, U+2028,
  U+2029, U+202F, U+205F and U+3000.
\<close>

definition unicodeSpaces :: "string list" where
  "unicodeSpaces =
     [[CHR 0x09], [CHR 0x0A], [CHR 0x0B], [CHR 0x0C], [CHR 0x0D], [CHR 0x20],
      [CHR 0xC2, CHR 0x85], [CHR 0xC2, CHR 0xA0],
      [CHR 0xE1, CHR 0x9A, CHR 0x80],
      [CHR 0xE2, CHR 0x80, CHR 0x80], [CHR 0xE2, CHR 0x80, CHR 0x81],
      [CHR 0xE2, CHR 0x80, CHR 0x82], [CHR 0xE2, CHR 0x80, CHR 0x83],
      [CHR 0xE2, CHR 0x80, CHR 0x84], [CHR 0xE2, CHR 0x80, CHR 0x85],
      [CHR 0xE2, CHR 0x80, CHR 0x86], [CHR 0xE2, CHR 0x80, CHR 0x87],
      [CHR 0xE2, CHR 0x80, CHR 0x88], [CHR 0xE2, CHR 0x80, CHR 0x89],
      [CHR 0xE2, CHR 0x80, CHR 0x8A],
      [CHR 0xE2, CHR 0x80, CHR 0xA8], [CHR 0xE2, CHR 0x80, CHR 0xA9],
      [CHR 0xE2, CHR 0x80, CHR 0xAF], [CHR 0xE2, CHR 0x81, CHR 0x9F],
      [CHR 0xE3, CHR 0x80, CHR 0x80]]"

text \<open>
  Cutting leading white space: as long as the string starts with the encoding of a
  white-space code point, drop that encoding.
\<close>

function trimPrefixes :: "string list \<Rightarrow> string \<Rightarrow> string" where
  "trimPrefixes ws s =
     (case find (\<lambda>w. w \<noteq> [] \<and> HasPrefix s w) ws of
        None \<Rightarrow> s
      | Some w \<Rightarrow> trimPrefixes ws (drop (length w) s))"
  by pat_completeness auto
termination
proof (relation "measure (\<lambda>(ws, s). length s)")
  show "wf (measure (\<lambda>(ws, s). length s))" by simp
next
  fix ws :: "string list" and s w :: string
  assume "find (\<lambda>w. w \<noteq> [] \<and> HasPrefix s w) ws = Some w"
  then have "w \<noteq> []" and "HasPrefix s w"
    by (auto simp: find_Some_iff)
  then have "0 < length w" and "length w \<le> length s"
    by (auto simp: HasPrefix_def)
  then have "length s - length w < length s"
    by linarith
  then show "((ws, drop (length w) s), (ws, s)) \<in> measure (\<lambda>(ws, s). length s)"
    by simp
qed

text \<open>
  \<open>strings.TrimSpace(s)\<close>: leading white space is cut, then trailing white space
  (the last code point of a string is a white-space one exactly when the string ends
  with its encoding).
\<close>

definition TrimSpace :: "string \<Rightarrow> string" where
  "TrimSpace s =
     rev (trimPrefixes (map rev unicodeSpaces) (rev (trimPrefixes unicodeSpaces s)))"


section \<open>Package nx: the memoized external queries\<close>

text \<open>
  Go returns a value together with an error; the model returns the pair, the error as
  an \<open>option\<close> (\<open>None\<close> is Go's \<open>nil\<close> error).  A \<open>nil\<close> slice and a
  \<open>nil\<close> map are the empty list: Go code reads both as empty.
\<close>

datatype error =
  GitDiffFailed | CreateTempFailed | ProjectGraphFailed | ReadGraphFileFailed
  | ParseGraphFailed | NxCommandFailed

text \<open>\<open>ProjectNode\<close>: \<open>Root\<close> is the field \<open>Data.Root\<close>.\<close>

record ProjectNode =
  Name :: string
  Root :: string

text \<open>
  \<open>map[string]ProjectNode\<close> as an association list; Go ranges over a map in an
  unspecified order, the list is one such order.
\<close>

type_synonym ProjectNodes = "(string \<times> ProjectNode) list"

text \<open>The external commands the package starts with \<open>exec.Command\<close>.\<close>

datatype command =
  GitDiff "string list" | NxGraph | NxDepGraph | NxShowProjects
  | NxShowAffected "string list"

text \<open>
  What the outside answers: the standard output of a command, or \<open>None\<close> when the
  command fails; whether the temporary file can be created and read; the nodes that
  the JSON in the graph file decodes to, or \<open>None\<close> when it does not decode.
\<close>

record world =
  git_diff :: "string list \<Rightarrow> string option"
  create_temp :: bool
  nx_graph :: bool
  nx_dep_graph :: bool
  read_graph_file :: bool
  graph_nodes :: "ProjectNodes option"
  nx_show_projects :: "string option"
  nx_show_affected :: "string list \<Rightarrow> string option"

text \<open>
  The package-level variables.  A \<open>sync.Once\<close> is the flag that says whether
  \<open>Do\<close> has run its function.  \<open>executed\<close> is the history of the external
  commands started so far.
\<close>

record globals =
  projectGraphCache :: ProjectNodes
  projectGraphOnce :: bool
  changedFilesCache :: "string list"
  changedFilesOnce :: bool
  allProjectsCache :: "string list"
  allProjectsLoaded :: bool
  executed :: "command list"

definition fresh :: globals where
  "fresh = \<lparr>projectGraphCache = [], projectGraphOnce = False, changedFilesCache = [],
     changedFilesOnce = False, allProjectsCache = [], allProjectsLoaded = False,
     executed = []\<rparr>"

subsection \<open>GetChangedFiles\<close>

text \<open>The lines of the diff: trimmed, empty ones left out, backslashes turned.\<close>

fun changedFilesOfLines :: "string list \<Rightarrow> string list \<Rightarrow> string list" where
  "changedFilesOfLines [] changedFiles = changedFiles"
| "changedFilesOfLines (line # lines) changedFiles =
     (let line' = TrimSpace line in
      if line' \<noteq> []
      then changedFilesOfLines lines (changedFiles @ [ReplaceAll line' backslash (CHR ''/'')])
      else changedFilesOfLines lines changedFiles)"

text \<open>The function given to \<open>changedFilesOnce.Do\<close>; it returns the local \<open>err\<close>.\<close>

definition changedFilesDo ::
  "world \<Rightarrow> globals \<Rightarrow> string \<Rightarrow> string \<Rightarrow> error option \<times> globals" where
  "changedFilesDo w g base head =
     (let args = (if base \<noteq> [] \<and> head \<noteq> [] then [base @ ''..'' @ head]
                  else if base \<noteq> [] then [base]
                  else [''HEAD'']);
          g1 = g\<lparr>executed := executed g @ [GitDiff args]\<rparr>
      in case git_diff w args of
           None \<Rightarrow> (Some GitDiffFailed, g1)
         | Some output \<Rightarrow>
             (let outputStr = TrimSpace output in
              if outputStr = [] then (None, g1\<lparr>changedFilesCache := []\<rparr>)
              else (None, g1\<lparr>changedFilesCache :=
                      changedFilesOfLines (Split outputStr newline) []\<rparr>)))"

definition GetChangedFiles ::
  "world \<Rightarrow> globals \<Rightarrow> string \<Rightarrow> string \<Rightarrow> (string list \<times> error option) \<times> globals" where
  "GetChangedFiles w g base head =
     (let (err, g') = (if changedFilesOnce g then (None, g)
                       else changedFilesDo w (g\<lparr>changedFilesOnce := True\<rparr>) base head)
      in case err of
           Some e \<Rightarrow> (([], Some e), g')
         | None \<Rightarrow> ((changedFilesCache g', None), g'))"

subsection \<open>GetProjectGraph\<close>

text \<open>Reading and decoding the file that the graph command wrote.\<close>

definition readProjectGraph :: "world \<Rightarrow> globals \<Rightarrow> error option \<times> globals" where
  "readProjectGraph w g =
     (if \<not> read_graph_file w then (Some ReadGraphFileFailed, g)
      else case graph_nodes w of
             None \<Rightarrow> (Some ParseGraphFailed, g)
           | Some nodes \<Rightarrow> (None, g\<lparr>projectGraphCache := nodes\<rparr>))"

text \<open>The function given to \<open>projectGraphOnce.Do\<close>.\<close>

definition projectGraphDo :: "world \<Rightarrow> globals \<Rightarrow> error option \<times> globals" where
  "projectGraphDo w g =
     (if \<not> create_temp w then (Some CreateTempFailed, g)
      else
        let g1 = g\<lparr>executed := executed g @ [NxGraph]\<rparr> in
        if \<not> nx_graph w then
          (let g2 = g1\<lparr>executed := executed g1 @ [NxDepGraph]\<rparr> in
           if \<not> nx_dep_graph w then (Some ProjectGraphFailed, g2)
           else readProjectGraph w g2)
        else readProjectGraph w g1)"

definition GetProjectGraph :: "world \<Rightarrow> globals \<Rightarrow> (ProjectNodes \<times> error option) \<times> globals" where
  "GetProjectGraph w g =
     (let (err, g') = (if projectGraphOnce g then (None, g)
                       else projectGraphDo w (g\<lparr>projectGraphOnce := True\<rparr>))
      in ((projectGraphCache g', err), g'))"

subsection \<open>GetChangedProjectsUsingGraph\<close>

text \<open>The inner loop: is one of the changed files in the project's directory?\<close>

fun fileInProject :: "string \<Rightarrow> string list \<Rightarrow> bool" where
  "fileInProject projectRoot [] = False"
| "fileInProject projectRoot (file # files) =
     (if HasPrefix file (projectRoot @ ''/'') \<or> file = projectRoot then True
      else fileInProject projectRoot files)"

text \<open>
  The outer loop over the nodes.  \<open>changedProjectsSet\<close>, a \<open>map[string]bool\<close>
  that only ever stores \<open>true\<close>, is the list of its keys, each once.
\<close>

fun markChangedProjects :: "ProjectNode list \<Rightarrow> string list \<Rightarrow> string list \<Rightarrow> string list" where
  "markChangedProjects [] changedFiles changedProjectsSet = changedProjectsSet"
| "markChangedProjects (node # nodes) changedFiles changedProjectsSet =
     (let projectRoot = ReplaceAll (Root node) backslash (CHR ''/'') in
      if fileInProject projectRoot changedFiles
      then markChangedProjects nodes changedFiles (List.insert (Name node) changedProjectsSet)
      else markChangedProjects nodes changedFiles changedProjectsSet)"

text \<open>
  The keys of the set are returned in the order the model stored them; in Go the
  order of the returned slice is unspecified.
\<close>

definition GetChangedProjectsUsingGraph ::
  "world \<Rightarrow> globals \<Rightarrow> string \<Rightarrow> string \<Rightarrow> (string list \<times> error option) \<times> globals" where
  "GetChangedProjectsUsingGraph w g base head =
     (let ((changedFiles, err), g1) = GetChangedFiles w g base head in
      case err of
        Some e \<Rightarrow> (([], Some e), g1)
      | None \<Rightarrow>
          if length changedFiles = 0 then (([], None), g1)
          else
            let ((projectGraph, err'), g2) = GetProjectGraph w g1 in
            case err' of
              Some e \<Rightarrow> (([], Some e), g2)
            | None \<Rightarrow> ((markChangedProjects (map snd projectGraph) changedFiles [], None), g2))"

subsection \<open>ShouldSkipProject\<close>

text \<open>The loop that looks the project up in the changed list.\<close>

fun inChangedList :: "string list \<Rightarrow> string \<Rightarrow> bool" where
  "inChangedList [] projectName = False"
| "inChangedList (changed # rest) projectName =
     (if changed = projectName then True else inChangedList rest projectName)"

definition ShouldSkipProject ::
  "world \<Rightarrow> globals \<Rightarrow> string \<Rightarrow> string \<Rightarrow> string \<Rightarrow> bool \<Rightarrow> (bool \<times> error option) \<times> globals" where
  "ShouldSkipProject w g projectName base head forceAll =
     (if forceAll then ((False, None), g)
      else if base = [] \<and> head = [] then ((False, None), g)
      else
        let ((changedProjects, err), g') = GetChangedProjectsUsingGraph w g base head in
        case err of
          Some e \<Rightarrow> ((False, None), g')
        | None \<Rightarrow>
            if inChangedList changedProjects projectName then ((False, None), g')
            else ((True, None), g'))"

subsection \<open>GetProjects and GetProjectsFromList\<close>

text \<open>The lines of the command's output, the empty ones left out.\<close>

fun nonEmptyLines :: "string list \<Rightarrow> string list \<Rightarrow> string list" where
  "nonEmptyLines [] projects = projects"
| "nonEmptyLines (p # rawProjects) projects =
     (if p \<noteq> [] then nonEmptyLines rawProjects (projects @ [p])
      else nonEmptyLines rawProjects projects)"

definition GetProjects ::
  "world \<Rightarrow> globals \<Rightarrow> string \<Rightarrow> string \<Rightarrow> bool \<Rightarrow> (string list \<times> error option) \<times> globals" where
  "GetProjects w g base head getAllProjects =
     (if getAllProjects then
        if allProjectsLoaded g then ((allProjectsCache g, None), g)
        else
          let g1 = g\<lparr>executed := executed g @ [NxShowProjects]\<rparr> in
          case nx_show_projects w of
            None \<Rightarrow> (([], Some NxCommandFailed), g1)
          | Some output \<Rightarrow>
              (let projects = nonEmptyLines (Split (TrimSpace output) newline) [] in
               ((projects, None), g1\<lparr>allProjectsCache := projects, allProjectsLoaded := True\<rparr>))
      else
        let args = (if base \<noteq> [] \<and> head \<noteq> []
                    then [''--base='' @ base, ''--head='' @ head] else []);
            g1 = g\<lparr>executed := executed g @ [NxShowAffected args]\<rparr> in
        case nx_show_affected w args of
          None \<Rightarrow> (([], Some NxCommandFailed), g1)
        | Some output \<Rightarrow>
            ((nonEmptyLines (Split (TrimSpace output) newline) [], None), g1))"

text \<open>\<open>projectMap\<close>: a \<open>map[string]bool\<close>; a key that was never stored reads \<open>false\<close>.\<close>

fun makeProjectMap :: "string list \<Rightarrow> (string \<Rightarrow> bool) \<Rightarrow> (string \<Rightarrow> bool)" where
  "makeProjectMap [] projectMap = projectMap"
| "makeProjectMap (p # allProjects) projectMap = makeProjectMap allProjects (projectMap(p := True))"

text \<open>The loop over the requested names.\<close>

fun sortRequested ::
  "(string \<Rightarrow> bool) \<Rightarrow> string list \<Rightarrow> string list \<Rightarrow> string list \<Rightarrow> string list \<times> string list" where
  "sortRequested projectMap [] validProjects invalidProjects = (validProjects, invalidProjects)"
| "sortRequested projectMap (project # requestedProjects) validProjects invalidProjects =
     (let trimmedProject = TrimSpace project in
      if trimmedProject = []
      then sortRequested projectMap requestedProjects validProjects invalidProjects
      else if projectMap trimmedProject
      then sortRequested projectMap requestedProjects (validProjects @ [trimmedProject]) invalidProjects
      else sortRequested projectMap requestedProjects validProjects (invalidProjects @ [trimmedProject]))"

definition GetProjectsFromList ::
  "world \<Rightarrow> globals \<Rightarrow> string \<Rightarrow> (string list \<times> string list \<times> error option) \<times> globals" where
  "GetProjectsFromList w g projectsList =
     (let ((allProjects, err), g') = GetProjects w g [] [] True in
      case err of
        Some e \<Rightarrow> (([], [], Some e), g')
      | None \<Rightarrow>
          (let projectMap = makeProjectMap allProjects (\<lambda>p. False);
               (validProjects, invalidProjects) =
                  sortRequested projectMap (Split projectsList (CHR '','')) [] []
           in ((validProjects, invalidProjects, None), g')))"


section \<open>Command fossa-nx: statistics\<close>

text \<open>
  Go's \<open>int32\<close> and \<open>int64\<close> are integers with the wrap-around of two's
  complement written out; \<open>atomic.AddInt32\<close> and \<open>atomic.AddInt64\<close> wrap, and so
  does the conversion \<open>int32(n)\<close> of an \<open>int\<close>.
\<close>

definition wrap32 :: "int \<Rightarrow> int" where
  "wrap32 x = (x + 2 ^ 31) mod 2 ^ 32 - 2 ^ 31"

definition wrap64 :: "int \<Rightarrow> int" where
  "wrap64 x = (x + 2 ^ 63) mod 2 ^ 64 - 2 ^ 63"

text \<open>Go's integer division truncates towards zero.\<close>

definition quo :: "int \<Rightarrow> int \<Rightarrow> int" where
  "quo a b = sgn a * sgn b * (\<bar>a\<bar> div \<bar>b\<bar>)"

text \<open>The struct \<open>Stats\<close>, durations in nanoseconds; the mutex is left out.\<close>

record Stats =
  totalProjects :: int
  successful :: int
  failed :: int
  vulnerabilities :: int
  totalDuration :: int
  maxDuration :: int
  minDuration :: int

text \<open>\<open>&Stats{}\<close>: every field zero.\<close>

definition zeroStats :: Stats where
  "zeroStats = \<lparr>totalProjects = 0, successful = 0, failed = 0, vulnerabilities = 0,
     totalDuration = 0, maxDuration = 0, minDuration = 0\<rparr>"

text \<open>\<open>int64(time.Hour)\<close>.\<close>

definition Hour :: int where
  "Hour = 3600000000000"

definition Second :: int where
  "Second = 1000000000"

definition initialize :: "Stats \<Rightarrow> int \<Rightarrow> Stats" where
  "initialize s projectCount =
     s\<lparr>totalProjects := wrap32 projectCount, successful := 0, failed := 0,
       totalDuration := 0, maxDuration := 0, minDuration := Hour\<rparr>"

text \<open>
  \<open>recordResult\<close>, one call run from its first statement to its last.  The
  compare-and-swap loop on \<open>maxDuration\<close> then runs its body once: either the
  duration is not above the stored value, or the swap succeeds.
\<close>

definition recordResult :: "Stats \<Rightarrow> bool \<Rightarrow> int \<Rightarrow> int \<Rightarrow> Stats" where
  "recordResult s success duration vulnCount =
     (let durationNanos = duration;
          s1 = (if success then s\<lparr>successful := wrap32 (successful s + 1)\<rparr>
                else s\<lparr>failed := wrap32 (failed s + 1)\<rparr>);
          s2 = (if vulnCount > 0
                then s1\<lparr>vulnerabilities := wrap32 (vulnerabilities s1 + wrap32 vulnCount)\<rparr>
                else s1);
          s3 = s2\<lparr>totalDuration := wrap64 (totalDuration s2 + durationNanos)\<rparr>;
          s4 = (if durationNanos \<le> maxDuration s3 then s3
                else s3\<lparr>maxDuration := durationNanos\<rparr>)
      in if durationNanos < minDuration s4 then s4\<lparr>minDuration := durationNanos\<rparr> else s4)"

text \<open>
  \<open>print\<close> writes one log line per entry.  The report holds the numbers that the
  lines show (durations still in nanoseconds, before they are formatted as seconds or
  minutes); a line that is not written is \<open>None\<close>.
\<close>

record Report =
  lineTotalProjects :: int
  lineSuccessful :: int
  lineFailed :: int
  lineVulnerabilities :: int
  lineAverageDuration :: int
  lineMinDuration :: "int option"
  lineMaxDuration :: "int option"

definition avgDuration :: "Stats \<Rightarrow> int" where
  "avgDuration s =
     (if wrap32 (successful s + failed s) > 0
      then quo (totalDuration s) (wrap32 (successful s + failed s))
      else 0)"

definition print :: "Stats \<Rightarrow> Report" where
  "print s =
     \<lparr>lineTotalProjects = totalProjects s,
      lineSuccessful = successful s,
      lineFailed = failed s,
      lineVulnerabilities = vulnerabilities s,
      lineAverageDuration = avgDuration s,
      lineMinDuration = (if wrap32 (successful s + failed s) > 0 then Some (minDuration s) else None),
      lineMaxDuration = (if wrap32 (successful s + failed s) > 0 then Some (maxDuration s) else None)\<rparr>"

section \<open>Command fossa-nx: the worker pool\<close>

record VulnerabilityIssue =
  issueName :: string
  issueDescription :: string
  issueSeverity :: string
  issueLink :: string
  issueCVE :: string
  issueFirstSeen :: int
  issueFixedIn :: string

text \<open>\<open>models.Result\<close>; the error is its message, times are in nanoseconds.\<close>

record Result =
  Project :: string
  Error :: "string option"
  Duration :: int
  EndTime :: int
  Issues :: "VulnerabilityIssue list"
  FossaLink :: string
  DependencyCount :: int

text \<open>
  A worker is waiting in its \<open>select\<close>, or it has run the scan and is sending the
  result, or it has returned.
\<close>

datatype worker = Waiting | Sending Result | Returned

text \<open>
  The goroutines of \<open>processProjectsOptimized\<close> and what they share: the feeder's
  remaining projects, the two buffered channels (a queue and whether it is closed),
  the workers, the collector's \<open>results\<close> and the statistics, and whether the
  context is done.  \<open>enqueued\<close> is the history of the projects sent to
  \<open>projectCh\<close>.
\<close>

record pool =
  toSend :: "string list"
  projectCh :: "string list"
  projectChClosed :: bool
  workers :: "worker list"
  resultCh :: "Result list"
  resultChClosed :: bool
  results :: "Result list"
  stats :: Stats
  ctxDone :: bool
  enqueued :: "string list"

text \<open>Both channels are made with capacity \<open>workers*2\<close>.\<close>

definition capacity :: "pool \<Rightarrow> nat" where
  "capacity p = length (workers p) * 2"

definition start :: "string list \<Rightarrow> nat \<Rightarrow> Stats \<Rightarrow> pool" where
  "start projects n s =
     \<lparr>toSend = projects, projectCh = [], projectChClosed = False,
      workers = replicate n Waiting, resultCh = [], resultChClosed = False,
      results = [], stats = s, ctxDone = False, enqueued = []\<rparr>"

text \<open>
  One step of one goroutine.  \<open>WorkerScan i err d t v\<close> is worker \<open>i\<close> receiving a
  project and scanning it: \<open>err\<close> is what \<open>fossa.RunAnalysis\<close> returns, \<open>d\<close> and
  \<open>t\<close> are the measured duration and end time, \<open>v\<close> is what
  \<open>getVulnerabilities\<close> returns when it is called.
\<close>

datatype action =
  FeederSend | FeederCancel | FeederDone
  | WorkerScan nat "string option" int int "VulnerabilityIssue list \<times> string \<times> int"
  | WorkerSend nat | WorkerClosed nat | WorkerCancel nat
  | CloseResults | Collect | Deadline

definition scanResult ::
  "string \<Rightarrow> string option \<Rightarrow> int \<Rightarrow> int \<Rightarrow> VulnerabilityIssue list \<times> string \<times> int \<Rightarrow> Result" where
  "scanResult project err d t v =
     (let (issues, fossaLink, depCount) = (if err = None then v else ([], [], 0))
      in \<lparr>Project = project, Error = err, Duration = d, EndTime = t, Issues = issues,
          FossaLink = fossaLink, DependencyCount = depCount\<rparr>)"

text \<open>The collector's loop body: record the result, append it.\<close>

definition collect :: "Result \<Rightarrow> pool \<Rightarrow> pool" where
  "collect result p =
     (let success = (Error result = None)
      in p\<lparr>stats := recordResult (stats p) success (Duration result) (int (length (Issues result))),
           results := results p @ [result]\<rparr>)"

text \<open>A step that cannot be taken in the state is \<open>None\<close>.\<close>

fun perform :: "action \<Rightarrow> pool \<Rightarrow> pool option" where
  "perform FeederSend p =
     (case toSend p of
        [] \<Rightarrow> None
      | project # rest \<Rightarrow>
          if \<not> projectChClosed p \<and> length (projectCh p) < capacity p
          then Some (p\<lparr>toSend := rest, projectCh := projectCh p @ [project],
                       enqueued := enqueued p @ [project]\<rparr>)
          else None)"
| "perform FeederCancel p =
     (if \<not> projectChClosed p \<and> toSend p \<noteq> [] \<and> ctxDone p
      then Some (p\<lparr>projectChClosed := True\<rparr>) else None)"
| "perform FeederDone p =
     (if \<not> projectChClosed p \<and> toSend p = []
      then Some (p\<lparr>projectChClosed := True\<rparr>) else None)"
| "perform (WorkerScan i err d t v) p =
     (case projectCh p of
        [] \<Rightarrow> None
      | project # rest \<Rightarrow>
          if i < length (workers p) \<and> workers p ! i = Waiting
          then Some (p\<lparr>projectCh := rest,
                       workers := (workers p)[i := Sending (scanResult project err d t v)]\<rparr>)
          else None)"
| "perform (WorkerSend i) p =
     (if i < length (workers p) \<and> length (resultCh p) < capacity p
      then (case workers p ! i of
              Sending result \<Rightarrow>
                Some (p\<lparr>resultCh := resultCh p @ [result], workers := (workers p)[i := Waiting]\<rparr>)
            | _ \<Rightarrow> None)
      else None)"
| "perform (WorkerClosed i) p =
     (if i < length (workers p) \<and> workers p ! i = Waiting \<and> projectCh p = [] \<and> projectChClosed p
      then Some (p\<lparr>workers := (workers p)[i := Returned]\<rparr>) else None)"
| "perform (WorkerCancel i) p =
     (if i < length (workers p) \<and> workers p ! i = Waiting \<and> ctxDone p
      then Some (p\<lparr>workers := (workers p)[i := Returned]\<rparr>) else None)"
| "perform CloseResults p =
     (if \<not> resultChClosed p \<and> list_all (\<lambda>w. w = Returned) (workers p)
      then Some (p\<lparr>resultChClosed := True\<rparr>) else None)"
| "perform Collect p =
     (case resultCh p of
        [] \<Rightarrow> None
      | result # rest \<Rightarrow> Some (collect result (p\<lparr>resultCh := rest\<rparr>)))"
| "perform Deadline p =
     (if \<not> ctxDone p then Some (p\<lparr>ctxDone := True\<rparr>) else None)"

text \<open>A schedule: the steps taken, in their order.\<close>

fun run :: "action list \<Rightarrow> pool \<Rightarrow> pool option" where
  "run [] p = Some p"
| "run (a # as) p = (case perform a p of None \<Rightarrow> None | Some p' \<Rightarrow> run as p')"

text \<open>
  The collector's \<open>range\<close> loop ends, and \<open>processProjectsOptimized\<close> returns
  \<open>results\<close>, when \<open>resultCh\<close> is closed and empty.
\<close>

definition finished :: "pool \<Rightarrow> bool" where
  "finished p = (resultCh p = [] \<and> resultChClosed p)"

section \<open>Command fossa-nx: the root command\<close>

text \<open>The flags that \<open>Run\<close> reads.\<close>

record options =
  optBase :: string
  optHead :: string
  optAll :: bool
  optIncludeUnmapped :: bool
  optProject :: string
  optConcurrent :: int
  optEmail :: bool
  optToEmail :: string
  optGithub :: bool
  optGithubToken :: string
  optCpuProfile :: string
  optMemProfile :: string

text \<open>
  How \<open>Run\<close> ends: \<open>log.Fatalf\<close> (which exits with status 1), \<open>os.Exit\<close> with
  a status, or a plain return, after which the process exits with status 0.
\<close>

datatype outcome = Fatal | Exit int | Return

definition exitCode :: "outcome \<Rightarrow> int" where
  "exitCode out = (case out of Fatal \<Rightarrow> 1 | Exit c \<Rightarrow> c | Return \<Rightarrow> 0)"

text \<open>The loop that keeps the mapped projects.\<close>

fun mappedProjects :: "(string \<Rightarrow> bool) \<Rightarrow> string list \<Rightarrow> string list \<Rightarrow> string list" where
  "mappedProjects isProjectMapped [] projects = projects"
| "mappedProjects isProjectMapped (project # rest) projects =
     (if isProjectMapped project then mappedProjects isProjectMapped rest (projects @ [project])
      else mappedProjects isProjectMapped rest projects)"

text \<open>The loop that looks for the one requested project among the available ones.\<close>

fun projectExists :: "string list \<Rightarrow> string \<Rightarrow> bool" where
  "projectExists [] projectName = False"
| "projectExists (p # rest) projectName =
     (if p = projectName then True else projectExists rest projectName)"

text \<open>
  The first part of \<open>Run\<close>: the projects to analyse, or the way \<open>Run\<close> ends
  before any project is dispatched.  \<open>isProjectMapped\<close> is
  \<open>mapping.IsProjectMapped\<close>.
\<close>

definition selectProjects ::
  "options \<Rightarrow> world \<Rightarrow> globals \<Rightarrow> (string \<Rightarrow> bool) \<Rightarrow> outcome + string list" where
  "selectProjects opts w g isProjectMapped =
     (if optProject opts \<noteq> [] \<and> (optAll opts \<or> (optBase opts \<noteq> [] \<or> optHead opts \<noteq> []))
      then Inl Fatal
      else if optProject opts \<noteq> [] then
        (if CHR '','' \<in> set (optProject opts) then
           (let ((validProjects, invalidProjects, err), g') = GetProjectsFromList w g (optProject opts) in
            case err of
              Some e \<Rightarrow> Inl Fatal
            | None \<Rightarrow>
                if length validProjects = 0 then Inl Fatal
                else if \<not> optIncludeUnmapped opts then
                  (let mapped = mappedProjects isProjectMapped validProjects [] in
                   if length mapped = 0 then Inl Fatal else Inr mapped)
                else Inr validProjects)
         else
           (let ((allAvailableProjects, err), g') = GetProjects w g [] [] True in
            case err of
              Some e \<Rightarrow> Inl Fatal
            | None \<Rightarrow>
                if \<not> projectExists allAvailableProjects (optProject opts) then Inl Fatal
                else if \<not> optIncludeUnmapped opts \<and> \<not> isProjectMapped (optProject opts) then Inl Fatal
                else Inr [optProject opts]))
      else
        (let ((candidateProjects, err), g') = GetProjects w g (optBase opts) (optHead opts) (optAll opts) in
         case err of
           Some e \<Rightarrow> Inl Fatal
         | None \<Rightarrow>
             (let projects = (if \<not> optIncludeUnmapped opts
                              then mappedProjects isProjectMapped candidateProjects []
                              else candidateProjects)
              in if length projects = 0 then Inl Return else Inr projects)))"

text \<open>\<open>email.ParseEmailList\<close>.\<close>

fun trimmedAddresses :: "string list \<Rightarrow> string list \<Rightarrow> string list" where
  "trimmedAddresses [] result = result"
| "trimmedAddresses (addr # rawList) result =
     (let trimmed = TrimSpace addr in
      if trimmed \<noteq> [] then trimmedAddresses rawList (result @ [trimmed])
      else trimmedAddresses rawList result)"

definition ParseEmailList :: "string \<Rightarrow> string list" where
  "ParseEmailList emails = trimmedAddresses (Split emails (CHR '','')) []"

text \<open>
  The notification collaborators: what each returns for the results it is given
  (\<open>None\<close> is success).
\<close>

record notifiers =
  SendHTMLReport :: "Result list \<Rightarrow> string option"
  CreateIssues :: "Result list \<Rightarrow> string option"
  CreateCommitStatus :: "Result list \<Rightarrow> string option"

text \<open>The notification part of \<open>Run\<close>; it returns the lines it logs.\<close>

definition sendNotifications :: "options \<Rightarrow> notifiers \<Rightarrow> Result list \<Rightarrow> string list" where
  "sendNotifications opts n rs =
     (let recipientList = (if optToEmail opts \<noteq> [] then ParseEmailList (optToEmail opts) else []);
          emailEnabled = (optEmail opts \<and> length recipientList > 0);
          githubEnabled = (optGithub opts \<and> optGithubToken opts \<noteq> []);
          log1 = (if emailEnabled
                  then (case SendHTMLReport n rs of
                          Some e \<Rightarrow> [''Error sending email report: '' @ e] | None \<Rightarrow> [])
                  else []);
          log2 = (if githubEnabled
                  then (case CreateIssues n rs of
                          Some e \<Rightarrow> [''Error creating GitHub issues: '' @ e] | None \<Rightarrow> [])
                       @ (case CreateCommitStatus n rs of
                            Some e \<Rightarrow> [''Error creating GitHub commit status: '' @ e] | None \<Rightarrow> [])
                  else [])
      in log1 @ log2)"

text \<open>
  \<open>Run\<close>, given the schedule that the pool follows: how it ends, the report that
  \<open>stats.print\<close> writes and the lines the notification part logs.  The result is
  \<open>None\<close> when the schedule is not one that takes \<open>processProjectsOptimized\<close> to
  its return.  \<open>numCPU\<close> is \<open>runtime.NumCPU()\<close>.
\<close>

definition Run ::
  "options \<Rightarrow> world \<Rightarrow> globals \<Rightarrow> (string \<Rightarrow> bool) \<Rightarrow> int \<Rightarrow> action list \<Rightarrow> notifiers
     \<Rightarrow> (outcome \<times> Report option \<times> string list) option" where
  "Run opts w g isProjectMapped numCPU schedule n =
     (case selectProjects opts w g isProjectMapped of
        Inl out \<Rightarrow> Some (out, None, [])
      | Inr projects \<Rightarrow>
          (let maxConcurrent = (if optConcurrent opts \<le> 0 then numCPU else optConcurrent opts);
               s = initialize zeroStats (int (length projects))
           in case run schedule (start projects (nat maxConcurrent) s) of
                None \<Rightarrow> None
              | Some p \<Rightarrow>
                  if \<not> finished p then None
                  else
                    (let report = print (stats p);
                         logged = sendNotifications opts n (results p)
                     in if failed (stats p) > 0 then Some (Exit 1, Some report, logged)
                        else Some (Return, Some report, logged))))"


section \<open>Sequences of calls and example inputs\<close>

text \<open>Later calls of the two memoized queries, each in a world of its own.\<close>

datatype call = CallGetChangedFiles string string | CallGetProjectGraph

fun calls :: "(world \<times> call) list \<Rightarrow> globals \<Rightarrow> globals" where
  "calls [] g = g"
| "calls ((w, CallGetChangedFiles base head) # cs) g = calls cs (snd (GetChangedFiles w g base head))"
| "calls ((w, CallGetProjectGraph) # cs) g = calls cs (snd (GetProjectGraph w g))"

text \<open>
  A workspace with the one project \<open>app1\<close> under \<open>apps/app1\<close> in its graph and the
  projects \<open>app1\<close> and \<open>app2\<close> in its inventory, where \<open>git diff\<close> prints the
  given text.
\<close>

definition app1Workspace :: "string \<Rightarrow> world" where
  "app1Workspace diff =
     \<lparr>git_diff = (\<lambda>args. Some diff), create_temp = True, nx_graph = True,
      nx_dep_graph = True, read_graph_file = True,
      graph_nodes = Some [(''app1'', \<lparr>Name = ''app1'', Root = ''apps/app1''\<rparr>)],
      nx_show_projects = Some (''app1'' @ [newline] @ ''app2'' @ [newline]),
      nx_show_affected = (\<lambda>args. Some (''app1'' @ [newline]))\<rparr>"

text \<open>The same workspace where the primary graph command fails.\<close>

definition oldNxWorkspace :: world where
  "oldNxWorkspace = (app1Workspace ''apps/app1/src/x.ts'')\<lparr>nx_graph := False\<rparr>"

text \<open>The same workspace where no temporary file can be created.\<close>

definition noTempWorkspace :: world where
  "noTempWorkspace = (app1Workspace ''apps/app1/src/x.ts'')\<lparr>create_temp := False\<rparr>"

text \<open>A directory that is no workspace: every command fails.\<close>

definition noWorkspace :: world where
  "noWorkspace =
     \<lparr>git_diff = (\<lambda>args. None), create_temp = True, nx_graph = False,
      nx_dep_graph = False, read_graph_file = False, graph_nodes = None,
      nx_show_projects = None, nx_show_affected = (\<lambda>args. None)\<rparr>"

section \<open>Invariants\<close>

text \<open>A cache holds nothing before its \<open>sync.Once\<close> has run.\<close>

definition consistent :: "globals \<Rightarrow> bool" where
  "consistent g \<longleftrightarrow> (\<not> changedFilesOnce g \<longrightarrow> changedFilesCache g = []) \<and>
     (\<not> projectGraphOnce g \<longrightarrow> projectGraphCache g = [])"

section \<open>Recording a sequence of results\<close>

text \<open>
  What \<open>recordResult\<close> is given for one result: whether the scan succeeded, its
  duration and the number of its vulnerabilities.
\<close>

type_synonym outcomeInput = "bool \<times> int \<times> int"

text \<open>One call of \<open>recordResult\<close> for each input, in the order of the list.\<close>

fun recordAll :: "Stats \<Rightarrow> outcomeInput list \<Rightarrow> Stats" where
  "recordAll s [] = s"
| "recordAll s ((success, duration, vulnCount) # inputs) =
     recordAll (recordResult s success duration vulnCount) inputs"

text \<open>
  The single-threaded reference computation, as the specification words it: the
  counts of the two outcomes, the sum of the durations, their maximum and their
  minimum, and the sum of the positive vulnerability counts.
\<close>

definition referenceStats :: "int \<Rightarrow> outcomeInput list \<Rightarrow> Stats" where
  "referenceStats projectCount inputs =
     \<lparr>totalProjects = projectCount,
      successful = int (length (filter (\<lambda>(success, duration, vulnCount). success) inputs)),
      failed = int (length (filter (\<lambda>(success, duration, vulnCount). \<not> success) inputs)),
      vulnerabilities = sum_list (map (\<lambda>(success, duration, vulnCount). max vulnCount 0) inputs),
      totalDuration = sum_list (map (\<lambda>(success, duration, vulnCount). duration) inputs),
      maxDuration = Max (set (map (\<lambda>(success, duration, vulnCount). duration) inputs)),
      minDuration = Min (set (map (\<lambda>(success, duration, vulnCount). duration) inputs))\<rparr>"

text \<open>What the collector passes to \<open>recordResult\<close> for a result.\<close>

definition inputOf :: "Result \<Rightarrow> outcomeInput" where
  "inputOf result = (Error result = None, Duration result, int (length (Issues result)))"

text \<open>The durations among the inputs.\<close>

abbreviation durations :: "outcomeInput list \<Rightarrow> int list" where
  "durations inputs \<equiv> map (\<lambda>i. fst (snd i)) inputs"

text \<open>
  A workspace whose graph has two nodes that carry the same name \<open>x\<close>, with the
  roots \<open>apps/a\<close> and \<open>libs/b\<close>, where the one changed file is
  \<open>libs/b/f.ts\<close>.
\<close>

definition sharedNameWorkspace :: world where
  "sharedNameWorkspace =
     (app1Workspace ''libs/b/f.ts'')\<lparr>graph_nodes :=
        Some [(''a'', \<lparr>Name = ''x'', Root = ''apps/a''\<rparr>),
              (''b'', \<lparr>Name = ''x'', Root = ''libs/b''\<rparr>)]\<rparr>"

text \<open>The workspace of \<open>app1\<close> where both graph commands fail.\<close>

definition noGraphWorkspace :: world where
  "noGraphWorkspace =
     (app1Workspace ''apps/app1/src/x.ts'')\<lparr>nx_graph := False, nx_dep_graph := False\<rparr>"

section \<open>The worker pool: what is where\<close>

text \<open>The projects whose scan has run and whose result a worker is still sending.\<close>

fun inFlight :: "worker list \<Rightarrow> string list" where
  "inFlight [] = []"
| "inFlight (Sending result # ws) = Project result # inFlight ws"
| "inFlight (w # ws) = inFlight ws"

text \<open>
  The steps a worker still has to take at least; and a bound on the steps that the
  whole pool can still take: every step makes it smaller.
\<close>

fun workerSteps :: "worker \<Rightarrow> nat" where
  "workerSteps Waiting = 1"
| "workerSteps (Sending result) = 4"
| "workerSteps Returned = 0"

definition stepsLeft :: "pool \<Rightarrow> nat" where
  "stepsLeft p =
     (if projectChClosed p then 0 else 1 + 5 * length (toSend p))
     + 4 * length (projectCh p)
     + sum_list (map workerSteps (workers p))
     + 2 * length (resultCh p)
     + (if resultChClosed p then 0 else 1)
     + (if ctxDone p then 0 else 1)"

text \<open>
  The schedule in which one worker takes the projects one by one, every scan ending
  with the same error (or none) and no issue found, and each result is collected
  before the next project is sent.
\<close>

definition oneByOne :: "string option \<Rightarrow> string list \<Rightarrow> action list" where
  "oneByOne err projects =
     concat (map (\<lambda>project. [FeederSend, WorkerScan 0 err 0 0 ([], [], 0), WorkerSend 0, Collect])
               projects)
     @ [FeederDone, WorkerClosed 0, CloseResults]"

text \<open>
  The projects that have left the feeder are in \<open>projectCh\<close>, with a worker, in
  \<open>resultCh\<close> or in \<open>results\<close>.
\<close>

definition accounted :: "pool \<Rightarrow> string multiset" where
  "accounted p =
     mset (projectCh p) + mset (inFlight (workers p)) + mset (map Project (resultCh p))
     + mset (map Project (results p))"

text \<open>
  \<open>resultCh\<close> is closed only after every worker has returned; and as long as the
  context is not done, a worker returns only after \<open>projectCh\<close> is closed and empty,
  and \<open>projectCh\<close> is closed only after every project was sent.
\<close>

definition orderly :: "pool \<Rightarrow> bool" where
  "orderly p \<longleftrightarrow>
     (resultChClosed p \<longrightarrow> list_all (\<lambda>w. w = Returned) (workers p)) \<and>
     (\<not> ctxDone p \<longrightarrow>
        (Returned \<in> set (workers p) \<longrightarrow> projectChClosed p \<and> projectCh p = []) \<and>
        (projectChClosed p \<longrightarrow> toSend p = []))"


text \<open>
  A run of two workers on the projects \<open>a\<close> and \<open>b\<close>: \<open>a\<close> succeeds after 5
  nanoseconds, \<open>b\<close> fails after 7.
\<close>

definition twoWorkersRun :: "action list" where
  "twoWorkersRun =
     [FeederSend, FeederSend, FeederDone, WorkerScan 0 None 5 6 ([], ''link'', 3), WorkerSend 0,
      WorkerScan 1 (Some ''exit status 1'') 7 8 ([], ''link'', 3), WorkerClosed 0, Collect,
      WorkerSend 1, WorkerClosed 1, CloseResults, Collect]"

section \<open>Command fossa-nx: the process\<close>

text \<open>
  Whether the CPU profile can be created and started, and whether the memory profile
  can be created and written.
\<close>

record profiling =
  cpuProfileStarts :: bool
  memProfileWritten :: bool

text \<open>
  The exit status of the process once the flags are parsed:
  \<open>PersistentPreRun\<close>, then \<open>Run\<close>, then, when \<open>Run\<close> returns,
  \<open>PersistentPostRun\<close>; a \<open>log.Fatalf\<close> in one of the two hooks exits with
  status 1.  The result is \<open>None\<close> when \<open>Run\<close> has none.
\<close>

definition main ::
  "options \<Rightarrow> profiling \<Rightarrow> world \<Rightarrow> globals \<Rightarrow> (string \<Rightarrow> bool) \<Rightarrow> int \<Rightarrow> action list
     \<Rightarrow> notifiers \<Rightarrow> int option" where
  "main opts prof w g isProjectMapped numCPU schedule n =
     (if optCpuProfile opts \<noteq> [] \<and> \<not> cpuProfileStarts prof then Some 1
      else case Run opts w g isProjectMapped numCPU schedule n of
             None \<Rightarrow> None
           | Some (out, report, logged) \<Rightarrow>
               (case out of
                  Fatal \<Rightarrow> Some (exitCode Fatal)
                | Exit c \<Rightarrow> Some (exitCode (Exit c))
                | Return \<Rightarrow>
                    if optMemProfile opts \<noteq> [] \<and> \<not> memProfileWritten prof then Some 1
                    else Some (exitCode Return)))"







text \<open>
  The workspace of \<open>app1\<close> on a system that separates path components with
  backslashes, in the output of \<open>git diff\<close> and in the root of the node.
\<close>

definition windowsWorkspace :: world where
  "windowsWorkspace =
     (app1Workspace (''apps'' @ [backslash] @ ''app1'' @ [backslash] @ ''main.ts''))\<lparr>graph_nodes :=
        Some [(''app1'', \<lparr>Name = ''app1'', Root = ''apps'' @ [backslash] @ ''app1''\<rparr>)]\<rparr>"

text \<open>As many inputs as an \<open>int32\<close> cannot count: \<open>2^31\<close> successes of one nanosecond.\<close>

definition manyInputs :: "outcomeInput list" where
  "manyInputs = replicate (2 ^ 31) (True, 1, 0)"


section \<open>Change detection: proofs\<close>

lemma fileInProject_iff:
  "fileInProject projectRoot files \<longleftrightarrow>
     (\<exists>file \<in> set files. file = projectRoot \<or> HasPrefix file (projectRoot @ ''/''))"
  by (induction files) auto

lemma set_markChangedProjects:
  "set (markChangedProjects nodes files acc) =
     set acc \<union> {Name n | n. n \<in> set nodes \<and>
        fileInProject (ReplaceAll (Root n) backslash (CHR ''/'')) files}"
  by (induction nodes arbitrary: acc) (auto simp: Let_def)

lemma distinct_markChangedProjects:
  "distinct acc \<Longrightarrow> distinct (markChangedProjects nodes files acc)"
  by (induction nodes arbitrary: acc) (auto simp: Let_def)

lemma inChangedList_iff: "inChangedList changedProjects projectName \<longleftrightarrow> projectName \<in> set changedProjects"
  by (induction changedProjects) auto

lemma GetChangedProjectsUsingGraph_ok:
  assumes "GetChangedFiles w g base head = ((changedFiles, None), g1)"
      and "GetProjectGraph w g1 = ((projectGraph, None), g2)"
  shows "x \<in> set (fst (fst (GetChangedProjectsUsingGraph w g base head))) \<longleftrightarrow>
           (\<exists>n \<in> set (map snd projectGraph). Name n = x \<and>
              fileInProject (ReplaceAll (Root n) backslash (CHR ''/'')) changedFiles)"
proof (cases "changedFiles = []")
  case True
  then have "GetChangedProjectsUsingGraph w g base head = (([], None), g1)"
    by (simp add: GetChangedProjectsUsingGraph_def assms(1))
  then show ?thesis
    using True by simp
next
  case False
  then have r: "GetChangedProjectsUsingGraph w g base head =
               ((markChangedProjects (map snd projectGraph) changedFiles [], None), g2)"
    by (simp add: GetChangedProjectsUsingGraph_def assms)
  have "x \<in> set (markChangedProjects (map snd projectGraph) changedFiles []) \<longleftrightarrow>
          (\<exists>n \<in> set (map snd projectGraph). Name n = x \<and>
              fileInProject (ReplaceAll (Root n) backslash (CHR ''/'')) changedFiles)"
    unfolding set_markChangedProjects by fastforce
  then show ?thesis
    by (simp only: r fst_conv)
qed

text \<open>
  Claim C1, amended.  When the changed files and the project graph have been obtained,
  a project name is in the result of \<open>GetChangedProjectsUsingGraph\<close> if and only if
  some node that carries the name has a changed file that equals the node's root,
  with backslashes turned into slashes, or begins with that root followed by a slash.
  For a node whose name no other node of the graph carries, this says: the node's
  project is in the result if and only if some changed file equals the node's root or
  begins with the root followed by a slash.
\<close>

theorem affected_iff_node_with_changed_file:
  assumes "GetChangedFiles w g base head = ((changedFiles, None), g1)"
      and "GetProjectGraph w g1 = ((projectGraph, None), g2)"
  shows "(x \<in> set (fst (fst (GetChangedProjectsUsingGraph w g base head))) \<longleftrightarrow>
           (\<exists>n \<in> set (map snd projectGraph). Name n = x \<and>
              (\<exists>file \<in> set changedFiles.
                 file = ReplaceAll (Root n) backslash (CHR ''/'') \<or>
                 HasPrefix file (ReplaceAll (Root n) backslash (CHR ''/'') @ ''/'')))) \<and>
         (node \<in> set (map snd projectGraph) \<and>
          (\<forall>n \<in> set (map snd projectGraph). Name n = Name node \<longrightarrow> n = node) \<longrightarrow>
            (Name node \<in> set (fst (fst (GetChangedProjectsUsingGraph w g base head))) \<longleftrightarrow>
               (\<exists>file \<in> set changedFiles.
                  file = ReplaceAll (Root node) backslash (CHR ''/'') \<or>
                  HasPrefix file (ReplaceAll (Root node) backslash (CHR ''/'') @ ''/''))))"
proof (intro conjI impI)
  show "x \<in> set (fst (fst (GetChangedProjectsUsingGraph w g base head))) \<longleftrightarrow>
           (\<exists>n \<in> set (map snd projectGraph). Name n = x \<and>
              (\<exists>file \<in> set changedFiles.
                 file = ReplaceAll (Root n) backslash (CHR ''/'') \<or>
                 HasPrefix file (ReplaceAll (Root n) backslash (CHR ''/'') @ ''/'')))"
    by (simp only: GetChangedProjectsUsingGraph_ok [OF assms] fileInProject_iff)
next
  assume a: "node \<in> set (map snd projectGraph) \<and>
          (\<forall>n \<in> set (map snd projectGraph). Name n = Name node \<longrightarrow> n = node)"
  let ?in = "\<lambda>n. fileInProject (ReplaceAll (Root n) backslash (CHR ''/'')) changedFiles"
  have "(\<exists>n \<in> set (map snd projectGraph). Name n = Name node \<and> ?in n) \<longleftrightarrow> ?in node"
  proof
    assume "\<exists>n \<in> set (map snd projectGraph). Name n = Name node \<and> ?in n"
    then obtain n where n: "n \<in> set (map snd projectGraph)" "Name n = Name node" "?in n"
      by (elim bexE conjE)
    from a n(1) have "Name n = Name node \<longrightarrow> n = node"
      by (elim conjE) (rule bspec)
    with n(2) have "n = node"
      by (rule_tac mp)
    with n(3) show "?in node"
      by (simp only:)
  next
    assume "?in node"
    with a show "\<exists>n \<in> set (map snd projectGraph). Name n = Name node \<and> ?in n"
      by (intro bexI [of _ node] conjI refl) (elim conjE, assumption)+
  qed
  then have "Name node \<in> set (fst (fst (GetChangedProjectsUsingGraph w g base head))) \<longleftrightarrow> ?in node"
    by (simp only: GetChangedProjectsUsingGraph_ok [OF assms])
  then show "Name node \<in> set (fst (fst (GetChangedProjectsUsingGraph w g base head))) \<longleftrightarrow>
               (\<exists>file \<in> set changedFiles.
                  file = ReplaceAll (Root node) backslash (CHR ''/'') \<or>
                  HasPrefix file (ReplaceAll (Root node) backslash (CHR ''/'') @ ''/''))"
    by (simp only: fileInProject_iff)
qed

text \<open>
  For the node \<open>app1\<close> with root \<open>apps/app1\<close>: the changed file
  \<open>apps/app1/src/x.ts\<close> marks \<open>app1\<close>, the changed file
  \<open>apps/app1b/x.ts\<close> does not; and with backslashes in the root and in the
  changed file, the file under the root marks \<open>app1\<close>.
\<close>

theorem affected_iff_node_with_changed_file_witness:
  "''app1'' \<in> set (fst (fst (GetChangedProjectsUsingGraph
       (app1Workspace ''apps/app1/src/x.ts'') fresh ''main'' ''feature''))) \<and>
   ''app1'' \<notin> set (fst (fst (GetChangedProjectsUsingGraph
       (app1Workspace ''apps/app1b/x.ts'') fresh ''main'' ''feature''))) \<and>
   ''app1'' \<in> set (fst (fst (GetChangedProjectsUsingGraph windowsWorkspace fresh ''main'' ''feature'')))"
proof -
  let ?wnode = "\<lparr>Name = ''app1'', Root = ''apps'' @ [backslash] @ ''app1''\<rparr>"
  have f3: "GetChangedFiles windowsWorkspace fresh ''main'' ''feature'' =
              (([''apps/app1/main.ts''], None), snd (GetChangedFiles windowsWorkspace fresh ''main'' ''feature''))"
    by code_simp
  have g3: "GetProjectGraph windowsWorkspace (snd (GetChangedFiles windowsWorkspace fresh ''main'' ''feature'')) =
              (([(''app1'', ?wnode)], None),
               snd (GetProjectGraph windowsWorkspace (snd (GetChangedFiles windowsWorkspace fresh ''main'' ''feature''))))"
    by code_simp
  have 3: "''app1'' \<in> set (fst (fst (GetChangedProjectsUsingGraph windowsWorkspace fresh ''main'' ''feature'')))"
    using affected_iff_node_with_changed_file [OF f3 g3, THEN conjunct1, of "''app1''"]
    by (simp add: ReplaceAll_def HasPrefix_def backslash_def)
  let ?node = "\<lparr>Name = ''app1'', Root = ''apps/app1''\<rparr>"
  let ?graph = "[(''app1'', ?node)]"
  let ?w1 = "app1Workspace ''apps/app1/src/x.ts''"
  let ?w2 = "app1Workspace ''apps/app1b/x.ts''"
  have f1: "GetChangedFiles ?w1 fresh ''main'' ''feature'' =
              (([''apps/app1/src/x.ts''], None), snd (GetChangedFiles ?w1 fresh ''main'' ''feature''))"
    by code_simp
  have f2: "GetChangedFiles ?w2 fresh ''main'' ''feature'' =
              (([''apps/app1b/x.ts''], None), snd (GetChangedFiles ?w2 fresh ''main'' ''feature''))"
    by code_simp
  have g1: "GetProjectGraph ?w1 (snd (GetChangedFiles ?w1 fresh ''main'' ''feature'')) =
              ((?graph, None), snd (GetProjectGraph ?w1 (snd (GetChangedFiles ?w1 fresh ''main'' ''feature''))))"
    by code_simp
  have g2: "GetProjectGraph ?w2 (snd (GetChangedFiles ?w2 fresh ''main'' ''feature'')) =
              ((?graph, None), snd (GetProjectGraph ?w2 (snd (GetChangedFiles ?w2 fresh ''main'' ''feature''))))"
    by code_simp
  have n: "?node \<in> set (map snd ?graph) \<and>
           (\<forall>n \<in> set (map snd ?graph). Name n = Name ?node \<longrightarrow> n = ?node)"
    by simp
  have 1: "Name ?node \<in> set (fst (fst (GetChangedProjectsUsingGraph ?w1 fresh ''main'' ''feature'')))"
    using affected_iff_node_with_changed_file [OF f1 g1, THEN conjunct2, of ?node] n
    by (simp add: ReplaceAll_def HasPrefix_def backslash_def)
  have 2: "Name ?node \<notin> set (fst (fst (GetChangedProjectsUsingGraph ?w2 fresh ''main'' ''feature'')))"
    using affected_iff_node_with_changed_file [OF f2 g2, THEN conjunct2, of ?node] n
    by (simp add: ReplaceAll_def HasPrefix_def backslash_def)
  from 1 2 3 show ?thesis
    by simp
qed

text \<open>
  Claim C1 as stated fails where two nodes carry one name: the changed file
  \<open>libs/b/f.ts\<close> lies under the root of the second node only, the name \<open>x\<close> is
  marked, and so the project of the first node, whose root is \<open>apps/a\<close>, is marked
  although no changed file equals that root or lies under it.
\<close>

theorem shared_name_marks_node_without_changed_file:
  "fst (GetChangedFiles sharedNameWorkspace fresh ''main'' ''feature'') = ([''libs/b/f.ts''], None) \<and>
   fst (GetProjectGraph sharedNameWorkspace fresh) =
     ([(''a'', \<lparr>Name = ''x'', Root = ''apps/a''\<rparr>), (''b'', \<lparr>Name = ''x'', Root = ''libs/b''\<rparr>)], None) \<and>
   ''x'' \<in> set (fst (fst (GetChangedProjectsUsingGraph sharedNameWorkspace fresh ''main'' ''feature''))) \<and>
   ''libs/b/f.ts'' \<noteq> ReplaceAll ''apps/a'' backslash (CHR ''/'') \<and>
   \<not> HasPrefix ''libs/b/f.ts'' (ReplaceAll ''apps/a'' backslash (CHR ''/'') @ ''/'')"
  by code_simp

text \<open>
  Claim C3: the code does not keep the policy.  Where \<open>git diff\<close> fails, the first
  call of \<open>ShouldSkipProject\<close> returns false (the scan is run), as the claim says;
  the second call in the same process returns true (the scan is skipped), because
  the failed query now reads as an empty change set.  The same happens where the
  changed files are found and both graph commands fail.
\<close>

theorem ShouldSkipProject_skips_after_failed_query:
  "fst (ShouldSkipProject noWorkspace fresh ''app1'' ''main'' ''feature'' False) = (False, None) \<and>
   fst (ShouldSkipProject noWorkspace
          (snd (ShouldSkipProject noWorkspace fresh ''app1'' ''main'' ''feature'' False))
          ''app1'' ''main'' ''feature'' False) = (True, None) \<and>
   fst (ShouldSkipProject noGraphWorkspace fresh ''app1'' ''main'' ''feature'' False) = (False, None) \<and>
   fst (ShouldSkipProject noGraphWorkspace
          (snd (ShouldSkipProject noGraphWorkspace fresh ''app1'' ''main'' ''feature'' False))
          ''app1'' ''main'' ''feature'' False) = (True, None)"
  by code_simp

lemma GetChangedFiles_once:
  "changedFilesOnce g \<Longrightarrow> GetChangedFiles w g base head = ((changedFilesCache g, None), g)"
  by (simp add: GetChangedFiles_def)

lemma GetProjectGraph_once:
  "projectGraphOnce g \<Longrightarrow> GetProjectGraph w g = ((projectGraphCache g, None), g)"
  by (simp add: GetProjectGraph_def)

lemma changedFilesDo_fields:
  "changedFilesDo w g base head = (err, g') \<Longrightarrow>
     changedFilesOnce g' = changedFilesOnce g \<and> projectGraphOnce g' = projectGraphOnce g \<and>
     projectGraphCache g' = projectGraphCache g \<and>
     (err \<noteq> None \<longrightarrow> changedFilesCache g' = changedFilesCache g)"
  by (auto simp: changedFilesDo_def Let_def split: option.splits if_splits)

lemma projectGraphDo_fields:
  "projectGraphDo w g = (err, g') \<Longrightarrow>
     changedFilesOnce g' = changedFilesOnce g \<and> projectGraphOnce g' = projectGraphOnce g \<and>
     changedFilesCache g' = changedFilesCache g \<and>
     (err \<noteq> None \<longrightarrow> projectGraphCache g' = projectGraphCache g)"
  by (auto simp: projectGraphDo_def readProjectGraph_def Let_def split: option.splits if_splits)

lemma GetChangedFiles_fields:
  assumes "GetChangedFiles w g base head = ((files, err), g')"
  shows "changedFilesOnce g'" and "projectGraphOnce g' = projectGraphOnce g"
    and "projectGraphCache g' = projectGraphCache g"
    and "changedFilesOnce g \<Longrightarrow> g' = g"
    and "err \<noteq> None \<Longrightarrow> changedFilesCache g' = changedFilesCache g"
proof -
  show "changedFilesOnce g \<Longrightarrow> g' = g"
    using assms by (simp add: GetChangedFiles_once)
  show "changedFilesOnce g'" "projectGraphOnce g' = projectGraphOnce g"
    "projectGraphCache g' = projectGraphCache g"
    "err \<noteq> None \<Longrightarrow> changedFilesCache g' = changedFilesCache g"
    using assms
    by (auto simp: GetChangedFiles_def split: if_splits prod.splits option.splits
          dest!: changedFilesDo_fields)
qed

lemma GetProjectGraph_fields:
  assumes "GetProjectGraph w g = ((nodes, err), g')"
  shows "projectGraphOnce g'" and "changedFilesOnce g' = changedFilesOnce g"
    and "changedFilesCache g' = changedFilesCache g"
    and "projectGraphOnce g \<Longrightarrow> g' = g"
    and "nodes = projectGraphCache g'"
    and "err \<noteq> None \<Longrightarrow> projectGraphCache g' = projectGraphCache g"
proof -
  show "projectGraphOnce g \<Longrightarrow> g' = g"
    using assms by (simp add: GetProjectGraph_once)
  show "projectGraphOnce g'" "changedFilesOnce g' = changedFilesOnce g"
    "changedFilesCache g' = changedFilesCache g" "nodes = projectGraphCache g'"
    "err \<noteq> None \<Longrightarrow> projectGraphCache g' = projectGraphCache g"
    using assms
    by (auto simp: GetProjectGraph_def split: if_splits prod.splits
          dest!: projectGraphDo_fields)
qed

lemma consistent_fresh: "consistent fresh"
  by (simp add: consistent_def fresh_def)

lemma consistent_GetChangedFiles: "consistent g \<Longrightarrow> consistent (snd (GetChangedFiles w g base head))"
proof -
  assume c: "consistent g"
  obtain files err g' where r: "GetChangedFiles w g base head = ((files, err), g')"
    by (metis prod.collapse)
  have "changedFilesOnce g'" "projectGraphOnce g' = projectGraphOnce g"
    "projectGraphCache g' = projectGraphCache g"
    by (rule GetChangedFiles_fields [OF r])+
  with c have "consistent g'"
    by (simp add: consistent_def)
  then show ?thesis
    by (simp add: r)
qed

lemma consistent_GetProjectGraph: "consistent g \<Longrightarrow> consistent (snd (GetProjectGraph w g))"
proof -
  assume c: "consistent g"
  obtain nodes err g' where r: "GetProjectGraph w g = ((nodes, err), g')"
    by (metis prod.collapse)
  have "projectGraphOnce g'" "changedFilesOnce g' = changedFilesOnce g"
    "changedFilesCache g' = changedFilesCache g"
    by (rule GetProjectGraph_fields [OF r])+
  with c have "consistent g'"
    by (simp add: consistent_def)
  then show ?thesis
    by (simp add: r)
qed

lemma consistent_calls: "consistent g \<Longrightarrow> consistent (calls cs g)"
  by (induction cs g rule: calls.induct)
    (simp_all add: consistent_GetChangedFiles consistent_GetProjectGraph)

lemma calls_keep_changedFiles:
  "changedFilesOnce g \<Longrightarrow>
     changedFilesOnce (calls cs g) \<and> changedFilesCache (calls cs g) = changedFilesCache g"
proof (induction cs g rule: calls.induct)
  case (1 g)
  then show ?case by simp
next
  case (2 w base head cs g)
  then show ?case by (simp add: GetChangedFiles_once)
next
  case (3 w cs g)
  obtain nodes err g' where r: "GetProjectGraph w g = ((nodes, err), g')"
    by (metis prod.collapse)
  have k: "changedFilesOnce g' = changedFilesOnce g" "changedFilesCache g' = changedFilesCache g"
    by (rule GetProjectGraph_fields [OF r])+
  have "changedFilesOnce (calls cs g') \<and> changedFilesCache (calls cs g') = changedFilesCache g'"
    using "3.IH" "3.prems" k(1) by (simp add: r)
  then show ?case
    by (simp add: r k(2))
qed

lemma calls_keep_projectGraph:
  "projectGraphOnce g \<Longrightarrow>
     projectGraphOnce (calls cs g) \<and> projectGraphCache (calls cs g) = projectGraphCache g"
proof (induction cs g rule: calls.induct)
  case (1 g)
  then show ?case by simp
next
  case (2 w base head cs g)
  obtain files err g' where r: "GetChangedFiles w g base head = ((files, err), g')"
    by (metis prod.collapse)
  have k: "projectGraphOnce g' = projectGraphOnce g" "projectGraphCache g' = projectGraphCache g"
    by (rule GetChangedFiles_fields [OF r])+
  have "projectGraphOnce (calls cs g') \<and> projectGraphCache (calls cs g') = projectGraphCache g'"
    using "2.IH" "2.prems" k(1) by (simp add: r)
  then show ?case
    by (simp add: r k(2))
next
  case (3 w cs g)
  then show ?case by (simp add: GetProjectGraph_once)
qed

text \<open>
  Claim C4.  After any earlier calls, if a call of \<open>GetChangedFiles\<close> returns an
  error, then every later call of it, whatever its arguments, whatever the outside
  answers by then and whatever calls lie between, returns the empty list and no error,
  and starts no command; the same holds for \<open>GetProjectGraph\<close>.
\<close>

theorem failed_query_reported_once:
  "(\<forall>files e g1. GetChangedFiles w (calls before fresh) base head = ((files, Some e), g1) \<longrightarrow>
      GetChangedFiles w' (calls after g1) base' head' = (([], None), calls after g1)) \<and>
   (\<forall>nodes e g1. GetProjectGraph w (calls before fresh) = ((nodes, Some e), g1) \<longrightarrow>
      GetProjectGraph w' (calls after g1) = (([], None), calls after g1))"
proof (intro conjI allI impI)
  fix files e g1
  assume a: "GetChangedFiles w (calls before fresh) base head = ((files, Some e), g1)"
  have c: "consistent (calls before fresh)"
    by (simp add: consistent_calls consistent_fresh)
  have first: "\<not> changedFilesOnce (calls before fresh)"
    using a by (auto simp: GetChangedFiles_once)
  have "changedFilesOnce g1" and "changedFilesCache g1 = []"
    using GetChangedFiles_fields(1,5) [OF a] c first by (auto simp: consistent_def)
  then have "changedFilesOnce (calls after g1)" and "changedFilesCache (calls after g1) = []"
    using calls_keep_changedFiles [of g1 after] by auto
  then show "GetChangedFiles w' (calls after g1) base' head' = (([], None), calls after g1)"
    by (simp add: GetChangedFiles_once)
next
  fix nodes e g1
  assume a: "GetProjectGraph w (calls before fresh) = ((nodes, Some e), g1)"
  have c: "consistent (calls before fresh)"
    by (simp add: consistent_calls consistent_fresh)
  have first: "\<not> projectGraphOnce (calls before fresh)"
    using a by (auto simp: GetProjectGraph_once)
  have "projectGraphOnce g1" and "projectGraphCache g1 = []"
    using GetProjectGraph_fields(1,6) [OF a] c first by (auto simp: consistent_def)
  then have "projectGraphOnce (calls after g1)" and "projectGraphCache (calls after g1) = []"
    using calls_keep_projectGraph [of g1 after] by auto
  then show "GetProjectGraph w' (calls after g1) = (([], None), calls after g1)"
    by (simp add: GetProjectGraph_once)
qed

theorem failed_query_reported_once_witness:
  "fst (GetChangedFiles (app1Workspace ''apps/app1/src/x.ts'')
          (snd (GetChangedFiles noWorkspace fresh ''main'' ''feature'')) ''main'' ''feature'') = ([], None) \<and>
   fst (GetProjectGraph (app1Workspace ''apps/app1/src/x.ts'')
          (snd (GetProjectGraph noWorkspace fresh))) = ([], None)"
proof -
  have a: "GetChangedFiles noWorkspace fresh ''main'' ''feature'' =
             (([], Some GitDiffFailed), snd (GetChangedFiles noWorkspace fresh ''main'' ''feature''))"
    by code_simp
  have b: "GetProjectGraph noWorkspace fresh =
             (([], Some ProjectGraphFailed), snd (GetProjectGraph noWorkspace fresh))"
    by code_simp
  have "calls [] fresh = fresh" by simp
  with failed_query_reported_once [of noWorkspace "[]" "''main''" "''feature''" "app1Workspace ''apps/app1/src/x.ts''" "[]"
      "''main''" "''feature''"] a b
  show ?thesis
    by (metis calls.simps(1) fst_conv)
qed

lemma projectGraphDo_executed:
  "executed (snd (projectGraphDo w g)) =
     executed g @ (if \<not> create_temp w then []
                   else if nx_graph w then [NxGraph] else [NxGraph, NxDepGraph])"
  by (auto simp: projectGraphDo_def readProjectGraph_def Let_def split: option.splits)

lemma projectGraphDo_error:
  "fst (projectGraphDo w g) =
     (if \<not> create_temp w then Some CreateTempFailed
      else if \<not> nx_graph w \<and> \<not> nx_dep_graph w then Some ProjectGraphFailed
      else if \<not> read_graph_file w then Some ReadGraphFileFailed
      else if graph_nodes w = None then Some ParseGraphFailed
      else None)"
  by (auto simp: projectGraphDo_def readProjectGraph_def Let_def split: option.splits)

lemma projectGraphDo_cache:
  "projectGraphCache (snd (projectGraphDo w g)) =
     (case fst (projectGraphDo w g) of
        Some e \<Rightarrow> projectGraphCache g
      | None \<Rightarrow> the (graph_nodes w))"
  by (auto simp: projectGraphDo_def readProjectGraph_def Let_def split: option.splits)

text \<open>
  Claim C5, amended.  The first call of \<open>GetProjectGraph\<close> starts the primary graph
  query once when the temporary file can be created; when it cannot, the call starts
  no query and returns the error of the temporary file.  When the primary query fails
  the call starts the fallback query once, and the error of the graph command is
  returned exactly when both failed.  With no error the call returns the nodes of the
  graph file, with an error the cache as it was.  A second call starts no command and
  returns what the first returned, with no error.
\<close>

theorem GetProjectGraph_memoized:
  "\<not> projectGraphOnce g \<longrightarrow>
     (case GetProjectGraph w g of
        ((nodes, err), g1) \<Rightarrow>
          executed g1 = executed g @ (if \<not> create_temp w then []
                                      else if nx_graph w then [NxGraph] else [NxGraph, NxDepGraph]) \<and>
          err = (if \<not> create_temp w then Some CreateTempFailed
                 else if \<not> nx_graph w \<and> \<not> nx_dep_graph w then Some ProjectGraphFailed
                 else if \<not> read_graph_file w then Some ReadGraphFileFailed
                 else if graph_nodes w = None then Some ParseGraphFailed
                 else None) \<and>
          nodes = (if err = None then the (graph_nodes w) else projectGraphCache g) \<and>
          GetProjectGraph w' g1 = ((nodes, None), g1))"
proof
  assume first: "\<not> projectGraphOnce g"
  let ?g = "g\<lparr>projectGraphOnce := True\<rparr>"
  obtain nodes err g1 where r: "GetProjectGraph w g = ((nodes, err), g1)"
    by (metis prod.collapse)
  have d: "projectGraphDo w ?g = (err, g1)" and n: "nodes = projectGraphCache g1"
    using r first by (auto simp: GetProjectGraph_def split: prod.splits)
  have e: "executed g1 = executed g @ (if \<not> create_temp w then []
                                      else if nx_graph w then [NxGraph] else [NxGraph, NxDepGraph])"
    using projectGraphDo_executed [of w ?g] d by simp
  have f: "err = (if \<not> create_temp w then Some CreateTempFailed
                 else if \<not> nx_graph w \<and> \<not> nx_dep_graph w then Some ProjectGraphFailed
                 else if \<not> read_graph_file w then Some ReadGraphFileFailed
                 else if graph_nodes w = None then Some ParseGraphFailed
                 else None)"
    using projectGraphDo_error [of w ?g] d by simp
  have c: "nodes = (if err = None then the (graph_nodes w) else projectGraphCache g)"
    using projectGraphDo_cache [of w ?g] d n by (cases err) simp_all
  have s: "GetProjectGraph w' g1 = ((nodes, None), g1)"
    using GetProjectGraph_fields(1) [OF r] n by (simp add: GetProjectGraph_once)
  from e f c s show "case GetProjectGraph w g of
        ((nodes, err), g1) \<Rightarrow>
          executed g1 = executed g @ (if \<not> create_temp w then []
                                      else if nx_graph w then [NxGraph] else [NxGraph, NxDepGraph]) \<and>
          err = (if \<not> create_temp w then Some CreateTempFailed
                 else if \<not> nx_graph w \<and> \<not> nx_dep_graph w then Some ProjectGraphFailed
                 else if \<not> read_graph_file w then Some ReadGraphFileFailed
                 else if graph_nodes w = None then Some ParseGraphFailed
                 else None) \<and>
          nodes = (if err = None then the (graph_nodes w) else projectGraphCache g) \<and>
          GetProjectGraph w' g1 = ((nodes, None), g1)"
    by (simp only: r prod.case)
qed

text \<open>
  Claim C5 as stated fails where no temporary file can be created: after two calls the
  primary graph query has not run once, but never.
\<close>

theorem GetProjectGraph_twice_no_query:
  "count_list (executed (snd (GetProjectGraph noTempWorkspace
      (snd (GetProjectGraph noTempWorkspace fresh))))) NxGraph = 0"
  by code_simp

theorem GetProjectGraph_memoized_witness:
  "count_list (executed (snd (GetProjectGraph oldNxWorkspace
      (snd (GetProjectGraph oldNxWorkspace fresh))))) NxGraph = 1 \<and>
   count_list (executed (snd (GetProjectGraph oldNxWorkspace
      (snd (GetProjectGraph oldNxWorkspace fresh))))) NxDepGraph = 1 \<and>
   fst (GetProjectGraph oldNxWorkspace (snd (GetProjectGraph oldNxWorkspace fresh))) =
     ([(''app1'', \<lparr>Name = ''app1'', Root = ''apps/app1''\<rparr>)], None) \<and>
   fst (GetProjectGraph noTempWorkspace fresh) = ([], Some CreateTempFailed)"
proof -
  have o: "\<not> projectGraphOnce fresh" "executed fresh = []" "projectGraphCache fresh = []"
    by (simp_all add: fresh_def)
  have t: "create_temp oldNxWorkspace" "\<not> nx_graph oldNxWorkspace" "nx_dep_graph oldNxWorkspace"
    "read_graph_file oldNxWorkspace"
    "graph_nodes oldNxWorkspace = Some [(''app1'', \<lparr>Name = ''app1'', Root = ''apps/app1''\<rparr>)]"
    by (simp_all add: oldNxWorkspace_def app1Workspace_def)
  have u: "\<not> create_temp noTempWorkspace"
    by (simp add: noTempWorkspace_def app1Workspace_def)
  obtain nodes err g1 where r: "GetProjectGraph oldNxWorkspace fresh = ((nodes, err), g1)"
    by (metis prod.collapse)
  obtain nodes' err' g1' where r': "GetProjectGraph noTempWorkspace fresh = ((nodes', err'), g1')"
    by (metis prod.collapse)
  have a: "executed g1 = [NxGraph, NxDepGraph]" "err = None"
    "nodes = [(''app1'', \<lparr>Name = ''app1'', Root = ''apps/app1''\<rparr>)]"
    "GetProjectGraph oldNxWorkspace g1 = ((nodes, None), g1)"
    using GetProjectGraph_memoized [of fresh oldNxWorkspace oldNxWorkspace] o t
    by (simp_all add: r)
  have b: "err' = Some CreateTempFailed" "nodes' = []"
    using GetProjectGraph_memoized [of fresh noTempWorkspace noTempWorkspace] o u
    by (simp_all add: r')
  from a b show ?thesis
    by (simp add: r r')
qed

lemma makeProjectMap_iff:
  "makeProjectMap allProjects projectMap p \<longleftrightarrow> p \<in> set allProjects \<or> projectMap p"
  by (induction allProjects arbitrary: projectMap) auto

lemma sortRequested_eq:
  "sortRequested projectMap requested valid invalid =
     (valid @ filter projectMap (filter (\<lambda>p. p \<noteq> []) (map TrimSpace requested)),
      invalid @ filter (\<lambda>p. \<not> projectMap p) (filter (\<lambda>p. p \<noteq> []) (map TrimSpace requested)))"
  by (induction requested arbitrary: valid invalid) (auto simp: Let_def)

lemma GetProjectsFromList_eq:
  assumes "GetProjects w g [] [] True = ((allProjects, None), g')"
  shows "GetProjectsFromList w g projectsList =
           ((filter (\<lambda>p. p \<in> set allProjects)
               (filter (\<lambda>p. p \<noteq> []) (map TrimSpace (Split projectsList (CHR '','')))),
             filter (\<lambda>p. p \<notin> set allProjects)
               (filter (\<lambda>p. p \<noteq> []) (map TrimSpace (Split projectsList (CHR '','')))),
             None), g')"
proof -
  have m: "makeProjectMap allProjects (\<lambda>p. False) = (\<lambda>p. p \<in> set allProjects)"
    by (rule ext) (simp add: makeProjectMap_iff)
  show ?thesis
    by (simp add: GetProjectsFromList_def assms m sortRequested_eq)
qed

text \<open>
  Claim C6.  When the inventory query gives the projects \<open>allProjects\<close>,
  \<open>GetProjectsFromList\<close> returns, of the comma-separated entries trimmed and
  without the empty ones, those that are in \<open>allProjects\<close> as the valid list and
  those that are not as the invalid list, each in the order of the input.
\<close>

theorem GetProjectsFromList_partition:
  assumes "GetProjects w g [] [] True = ((allProjects, None), g')"
  shows "GetProjectsFromList w g projectsList =
           ((filter (\<lambda>p. p \<in> set allProjects)
               (filter (\<lambda>p. p \<noteq> []) (map TrimSpace (Split projectsList (CHR '','')))),
             filter (\<lambda>p. p \<notin> set allProjects)
               (filter (\<lambda>p. p \<noteq> []) (map TrimSpace (Split projectsList (CHR '','')))),
             None), g')"
  using assms by (rule GetProjectsFromList_eq)

theorem GetProjectsFromList_partition_witness:
  "fst (GetProjectsFromList (app1Workspace []) fresh ''app1,app2,ghost'') =
     ([''app1'', ''app2''], [''ghost''], None) \<and>
   fst (GetProjectsFromList (app1Workspace []) fresh ''ghost, app2 ,, ,app1'') =
     ([''app2'', ''app1''], [''ghost''], None)"
proof -
  have u: "GetProjects (app1Workspace []) fresh [] [] True =
             (([''app1'', ''app2''], None), snd (GetProjects (app1Workspace []) fresh [] [] True))"
    by code_simp
  have s1: "filter (\<lambda>p. p \<noteq> []) (map TrimSpace (Split ''app1,app2,ghost'' (CHR '',''))) =
              [''app1'', ''app2'', ''ghost'']"
    by code_simp
  have s2: "filter (\<lambda>p. p \<noteq> []) (map TrimSpace (Split ''ghost, app2 ,, ,app1'' (CHR '',''))) =
              [''ghost'', ''app2'', ''app1'']"
    by code_simp
  show ?thesis
    using GetProjectsFromList_partition [OF u, of "''app1,app2,ghost''"] GetProjectsFromList_partition [OF u, of "''ghost, app2 ,, ,app1''"]
    unfolding s1 s2 by simp
qed

section \<open>Statistics: proofs\<close>


lemma wrap32_id: "- (2 ^ 31) \<le> x \<Longrightarrow> x < 2 ^ 31 \<Longrightarrow> wrap32 x = x"
  by (simp add: wrap32_def)

lemma wrap64_id: "- (2 ^ 63) \<le> x \<Longrightarrow> x < 2 ^ 63 \<Longrightarrow> wrap64 x = x"
  by (simp add: wrap64_def)

lemma wrap32_add_left: "wrap32 (wrap32 x + y) = wrap32 (x + y)"
  by (simp add: wrap32_def mod_simps algebra_simps)

lemma wrap64_add_left: "wrap64 (wrap64 x + y) = wrap64 (x + y)"
  by (simp add: wrap64_def mod_simps algebra_simps)



lemma recordResult_fields:
  "totalProjects (recordResult s success d v) = totalProjects s"
  "successful (recordResult s success d v) = (if success then wrap32 (successful s + 1) else successful s)"
  "failed (recordResult s success d v) = (if success then failed s else wrap32 (failed s + 1))"
  "totalDuration (recordResult s success d v) = wrap64 (totalDuration s + d)"
  "maxDuration (recordResult s success d v) = max (maxDuration s) d"
  "minDuration (recordResult s success d v) = min (minDuration s) d"
  "vulnerabilities (recordResult s success d v) =
     (if v > 0 then wrap32 (vulnerabilities s + wrap32 v) else vulnerabilities s)"
  by (simp_all add: recordResult_def Let_def)


lemma recordAll_successful:
  "wrap32 (successful (recordAll s inputs)) = wrap32 (successful s + int (length (filter fst inputs)))"
proof (induction s inputs rule: recordAll.induct)
  case (1 s)
  then show ?case by simp
next
  case (2 s success duration vulnCount inputs)
  let ?k = "int (length (filter fst inputs))"
  show ?case
  proof (cases success)
    case True
    have "wrap32 (successful (recordAll (recordResult s success duration vulnCount) inputs)) =
            wrap32 (wrap32 (successful s + 1) + ?k)"
      using 2 True by (simp add: recordResult_fields)
    also have "\<dots> = wrap32 (successful s + 1 + ?k)"
      by (rule wrap32_add_left)
    finally show ?thesis
      using True by (simp add: add.assoc)
  next
    case False
    then show ?thesis
      using 2 by (simp add: recordResult_fields)
  qed
qed

lemma recordAll_failed:
  "wrap32 (failed (recordAll s inputs)) =
     wrap32 (failed s + int (length (filter (\<lambda>i. \<not> fst i) inputs)))"
proof (induction s inputs rule: recordAll.induct)
  case (1 s)
  then show ?case by simp
next
  case (2 s success duration vulnCount inputs)
  let ?k = "int (length (filter (\<lambda>i. \<not> fst i) inputs))"
  show ?case
  proof (cases success)
    case False
    have "wrap32 (failed (recordAll (recordResult s success duration vulnCount) inputs)) =
            wrap32 (wrap32 (failed s + 1) + ?k)"
      using 2 False by (simp add: recordResult_fields)
    also have "\<dots> = wrap32 (failed s + 1 + ?k)"
      by (rule wrap32_add_left)
    finally show ?thesis
      using False by (simp add: add.assoc)
  next
    case True
    then show ?thesis
      using 2 by (simp add: recordResult_fields)
  qed
qed

lemma recordAll_totalDuration:
  "wrap64 (totalDuration (recordAll s inputs)) = wrap64 (totalDuration s + sum_list (durations inputs))"
proof (induction s inputs rule: recordAll.induct)
  case (1 s)
  then show ?case by simp
next
  case (2 s success duration vulnCount inputs)
  then show ?case
    using wrap64_add_left [of "totalDuration s + duration" "sum_list (durations inputs)"]
    by (simp add: recordResult_fields add.assoc)
qed

lemma recordAll_maxDuration:
  "maxDuration (recordAll s inputs) = Max (insert (maxDuration s) (set (durations inputs)))"
proof (induction s inputs rule: recordAll.induct)
  case (1 s)
  then show ?case by simp
next
  case (2 s success duration vulnCount inputs)
  have "Max (insert (max (maxDuration s) duration) (set (durations inputs))) =
          Max (insert (maxDuration s) (insert duration (set (durations inputs))))"
    by (cases "set (durations inputs) = {}") (simp_all add: max.assoc)
  then show ?case
    using 2 by (simp add: recordResult_fields)
qed

lemma recordAll_minDuration:
  "minDuration (recordAll s inputs) = Min (insert (minDuration s) (set (durations inputs)))"
proof (induction s inputs rule: recordAll.induct)
  case (1 s)
  then show ?case by simp
next
  case (2 s success duration vulnCount inputs)
  have "Min (insert (min (minDuration s) duration) (set (durations inputs))) =
          Min (insert (minDuration s) (insert duration (set (durations inputs))))"
    by (cases "set (durations inputs) = {}") (simp_all add: min.assoc)
  then show ?case
    using 2 by (simp add: recordResult_fields)
qed

lemma in_range_wrap32: "- (2 ^ 31) \<le> wrap32 x \<and> wrap32 x < 2 ^ 31"
  by (simp add: wrap32_def)

lemma in_range_wrap64: "- (2 ^ 63) \<le> wrap64 x \<and> wrap64 x < 2 ^ 63"
  by (simp add: wrap64_def)


lemma le_div_int: "0 < (n::int) \<Longrightarrow> m * n \<le> a \<Longrightarrow> m \<le> a div n"
  using zdiv_mono1 by fastforce

lemma div_le_int: "0 < (n::int) \<Longrightarrow> a \<le> m * n \<Longrightarrow> a div n \<le> m"
  using zdiv_mono1 by fastforce

lemma sum_list_ge: "\<forall>x \<in> set xs. (m::int) \<le> x \<Longrightarrow> m * int (length xs) \<le> sum_list xs"
  by (induction xs) (auto simp: algebra_simps)

lemma sum_list_le: "\<forall>x \<in> set xs. x \<le> (m::int) \<Longrightarrow> sum_list xs \<le> m * int (length xs)"
  by (induction xs) (auto simp: algebra_simps)

lemma quo_nonneg: "0 \<le> a \<Longrightarrow> 0 < b \<Longrightarrow> quo a b = a div b"
  by (cases "a = 0") (simp_all add: quo_def)

lemma length_successes_failures:
  "length (filter fst inputs) + length (filter (\<lambda>i. \<not> fst i) inputs) = length inputs"
  by (induction inputs) auto


lemma m_le_quo: "0 < n \<Longrightarrow> m * n \<le> a \<Longrightarrow> m \<le> quo a n"
proof (cases "0 \<le> a")
  case True
  assume "0 < n" "m * n \<le> a"
  then show ?thesis
    using True by (simp add: quo_nonneg le_div_int)
next
  case False
  assume n: "0 < n" and le: "m * n \<le> a"
  have "- a \<le> (- m) * n"
    using le by simp
  then have "(- a) div n \<le> - m"
    using n by (rule_tac div_le_int)
  moreover have "quo a n = - ((- a) div n)"
    using False n by (simp add: quo_def)
  ultimately show ?thesis
    by simp
qed

lemma quo_le_m: "0 < n \<Longrightarrow> 0 \<le> m \<Longrightarrow> a \<le> m * n \<Longrightarrow> quo a n \<le> m"
proof (cases "0 \<le> a")
  case True
  assume "0 < n" "a \<le> m * n"
  then show ?thesis
    using True by (simp add: quo_nonneg div_le_int)
next
  case False
  assume n: "0 < n" and m: "0 \<le> m"
  have "0 \<le> (- a) div n"
    using False n by (simp add: pos_imp_zdiv_nonneg_iff)
  moreover have "quo a n = - ((- a) div n)"
    using False n by (simp add: quo_def)
  ultimately show ?thesis
    using m by simp
qed

lemma recordAll_successful_range:
  "- (2 ^ 31) \<le> successful s \<and> successful s < 2 ^ 31 \<Longrightarrow>
     - (2 ^ 31) \<le> successful (recordAll s inputs) \<and> successful (recordAll s inputs) < 2 ^ 31"
proof (induction s inputs rule: recordAll.induct)
  case (1 s)
  then show ?case by simp
next
  case (2 s success duration vulnCount inputs)
  have "- (2 ^ 31) \<le> successful (recordResult s success duration vulnCount) \<and>
        successful (recordResult s success duration vulnCount) < 2 ^ 31"
    using "2.prems" in_range_wrap32 [of "successful s + 1"]
    by (simp add: recordResult_fields)
  then show ?case
    using "2.IH" by simp
qed

lemma recordAll_failed_range:
  "- (2 ^ 31) \<le> failed s \<and> failed s < 2 ^ 31 \<Longrightarrow>
     - (2 ^ 31) \<le> failed (recordAll s inputs) \<and> failed (recordAll s inputs) < 2 ^ 31"
proof (induction s inputs rule: recordAll.induct)
  case (1 s)
  then show ?case by simp
next
  case (2 s success duration vulnCount inputs)
  have "- (2 ^ 31) \<le> failed (recordResult s success duration vulnCount) \<and>
        failed (recordResult s success duration vulnCount) < 2 ^ 31"
    using "2.prems" in_range_wrap32 [of "failed s + 1"]
    by (simp add: recordResult_fields)
  then show ?case
    using "2.IH" by simp
qed

lemma recordAll_totalDuration_range:
  "- (2 ^ 63) \<le> totalDuration s \<and> totalDuration s < 2 ^ 63 \<Longrightarrow>
     - (2 ^ 63) \<le> totalDuration (recordAll s inputs) \<and> totalDuration (recordAll s inputs) < 2 ^ 63"
proof (induction s inputs rule: recordAll.induct)
  case (1 s)
  then show ?case by simp
next
  case (2 s success duration vulnCount inputs)
  have "- (2 ^ 63) \<le> totalDuration (recordResult s success duration vulnCount) \<and>
        totalDuration (recordResult s success duration vulnCount) < 2 ^ 63"
    using in_range_wrap64 [of "totalDuration s + duration"]
    by (simp add: recordResult_fields)
  then show ?case
    using "2.IH" by simp
qed

lemma initialize_fields:
  "totalProjects (initialize s n) = wrap32 n" "successful (initialize s n) = 0"
  "failed (initialize s n) = 0" "totalDuration (initialize s n) = 0"
  "maxDuration (initialize s n) = 0" "minDuration (initialize s n) = Hour"
  "vulnerabilities (initialize s n) = vulnerabilities s"
  by (simp_all add: initialize_def)

text \<open>The counters after recording, from freshly initialized statistics.\<close>

lemma recorded_successful:
  "successful (recordAll (initialize s0 n) inputs) = wrap32 (int (length (filter fst inputs)))"
proof -
  let ?S = "recordAll (initialize s0 n) inputs"
  have "- (2 ^ 31) \<le> successful ?S \<and> successful ?S < 2 ^ 31"
    by (rule recordAll_successful_range) (simp add: initialize_fields)
  then have "successful ?S = wrap32 (successful ?S)"
    by (simp add: wrap32_id)
  also have "\<dots> = wrap32 (int (length (filter fst inputs)))"
    using recordAll_successful [of "initialize s0 n" inputs] by (simp add: initialize_fields)
  finally show ?thesis .
qed

lemma recorded_failed:
  "failed (recordAll (initialize s0 n) inputs) =
     wrap32 (int (length (filter (\<lambda>i. \<not> fst i) inputs)))"
proof -
  let ?S = "recordAll (initialize s0 n) inputs"
  have "- (2 ^ 31) \<le> failed ?S \<and> failed ?S < 2 ^ 31"
    by (rule recordAll_failed_range) (simp add: initialize_fields)
  then have "failed ?S = wrap32 (failed ?S)"
    by (simp add: wrap32_id)
  also have "\<dots> = wrap32 (int (length (filter (\<lambda>i. \<not> fst i) inputs)))"
    using recordAll_failed [of "initialize s0 n" inputs] by (simp add: initialize_fields)
  finally show ?thesis .
qed

lemma recorded_totalDuration:
  "totalDuration (recordAll (initialize s0 n) inputs) = wrap64 (sum_list (durations inputs))"
proof -
  let ?S = "recordAll (initialize s0 n) inputs"
  have "- (2 ^ 63) \<le> totalDuration ?S \<and> totalDuration ?S < 2 ^ 63"
    by (rule recordAll_totalDuration_range) (simp add: initialize_fields)
  then have "totalDuration ?S = wrap64 (totalDuration ?S)"
    by (simp add: wrap64_id)
  also have "\<dots> = wrap64 (sum_list (durations inputs))"
    using recordAll_totalDuration [of "initialize s0 n" inputs] by (simp add: initialize_fields)
  finally show ?thesis .
qed

lemma recorded_sum:
  assumes "int (length inputs) < 2 ^ 31"
  shows "successful (recordAll (initialize s0 n) inputs) = int (length (filter fst inputs))"
    and "failed (recordAll (initialize s0 n) inputs) = int (length (filter (\<lambda>i. \<not> fst i) inputs))"
    and "successful (recordAll (initialize s0 n) inputs) + failed (recordAll (initialize s0 n) inputs)
           = int (length inputs)"
proof -
  have a: "int (length (filter fst inputs)) < 2 ^ 31"
    using assms length_filter_le [of fst inputs] by linarith
  have b: "int (length (filter (\<lambda>i. \<not> fst i) inputs)) < 2 ^ 31"
    using assms length_filter_le [of "\<lambda>i. \<not> fst i" inputs] by linarith
  show 1: "successful (recordAll (initialize s0 n) inputs) = int (length (filter fst inputs))"
    using a by (simp add: recorded_successful wrap32_id)
  show 2: "failed (recordAll (initialize s0 n) inputs) = int (length (filter (\<lambda>i. \<not> fst i) inputs))"
    using b by (simp add: recorded_failed wrap32_id)
  show "successful (recordAll (initialize s0 n) inputs) + failed (recordAll (initialize s0 n) inputs)
           = int (length inputs)"
    using length_successes_failures [of inputs] by (simp only: 1 2)
qed

text \<open>
  Claim C8, amended.  After a non-empty sequence of \<open>recordResult\<close> calls on freshly
  initialized statistics, with fewer than \<open>2^31\<close> results and a sum of durations that
  fits an \<open>int64\<close>, the minimum is at most the average and the average at most the
  maximum, the average being \<open>totalDuration\<close> divided by \<open>successful + failed\<close>, and
  the report shows the minimum and the maximum.  With no result recorded the report
  leaves both out.
\<close>

theorem min_avg_max_ordered:
  assumes "inputs \<noteq> []" and "int (length inputs) < 2 ^ 31"
      and "- (2 ^ 63) \<le> sum_list (durations inputs)" and "sum_list (durations inputs) < 2 ^ 63"
  shows "minDuration (recordAll (initialize s0 n) inputs) \<le> avgDuration (recordAll (initialize s0 n) inputs) \<and>
         avgDuration (recordAll (initialize s0 n) inputs) \<le> maxDuration (recordAll (initialize s0 n) inputs) \<and>
         avgDuration (recordAll (initialize s0 n) inputs) =
           quo (totalDuration (recordAll (initialize s0 n) inputs))
               (successful (recordAll (initialize s0 n) inputs) + failed (recordAll (initialize s0 n) inputs)) \<and>
         lineMinDuration (print (recordAll (initialize s0 n) inputs)) =
           Some (minDuration (recordAll (initialize s0 n) inputs)) \<and>
         lineMaxDuration (print (recordAll (initialize s0 n) inputs)) =
           Some (maxDuration (recordAll (initialize s0 n) inputs)) \<and>
         lineMinDuration (print (initialize s0 n)) = None \<and>
         lineMaxDuration (print (initialize s0 n)) = None"
proof -
  let ?S = "recordAll (initialize s0 n) inputs"
  let ?n = "int (length inputs)"
  let ?sum = "sum_list (durations inputs)"
  have pos: "0 < ?n"
    using assms(1) by simp
  have cnt: "successful ?S + failed ?S = ?n"
    by (rule recorded_sum(3) [OF assms(2)])
  have w': "wrap32 ?n = ?n"
    using assms(2) by (simp add: wrap32_id)
  have w: "wrap32 (successful ?S + failed ?S) = ?n"
    by (simp only: cnt w')
  have tot: "totalDuration ?S = ?sum"
    using assms(3,4) by (simp add: recorded_totalDuration wrap64_id)
  have avg: "avgDuration ?S = quo ?sum ?n"
    using pos by (simp add: avgDuration_def w tot)
  have mn: "minDuration ?S = Min (insert Hour (set (durations inputs)))"
    by (simp add: recordAll_minDuration initialize_fields)
  have mx: "maxDuration ?S = Max (insert 0 (set (durations inputs)))"
    by (simp add: recordAll_maxDuration initialize_fields)
  have "\<forall>d \<in> set (durations inputs). minDuration ?S \<le> d"
    unfolding mn by simp
  then have "minDuration ?S * int (length (durations inputs)) \<le> ?sum"
    by (rule sum_list_ge)
  then have lo: "minDuration ?S \<le> quo ?sum ?n"
    using pos by (intro m_le_quo) simp_all
  have "\<forall>d \<in> set (durations inputs). d \<le> maxDuration ?S"
    unfolding mx by simp
  then have "?sum \<le> maxDuration ?S * int (length (durations inputs))"
    by (rule sum_list_le)
  moreover have "0 \<le> maxDuration ?S"
    unfolding mx by simp
  ultimately have hi: "quo ?sum ?n \<le> maxDuration ?S"
    using pos by (intro quo_le_m) simp_all
  have zero: "wrap32 (successful (initialize s0 n) + failed (initialize s0 n)) = 0"
    by (simp add: initialize_fields wrap32_def)
  have q: "avgDuration ?S = quo (totalDuration ?S) (successful ?S + failed ?S)"
    by (simp only: avg tot cnt)
  have p: "lineMinDuration (print ?S) = Some (minDuration ?S)"
    "lineMaxDuration (print ?S) = Some (maxDuration ?S)"
    using pos by (simp_all add: print_def w)
  have z: "lineMinDuration (print (initialize s0 n)) = None"
    "lineMaxDuration (print (initialize s0 n)) = None"
    by (simp_all add: print_def zero)
  from lo hi q p z show ?thesis
    by (simp only: avg)
qed

theorem min_avg_max_ordered_witness:
  "minDuration (recordAll (initialize zeroStats 5)
      [(True, Second, 0), (True, 2 * Second, 0), (True, 3 * Second, 0), (True, 4 * Second, 0),
       (True, 5 * Second, 0)]) \<le> 3 * Second \<and>
   3 * Second \<le> maxDuration (recordAll (initialize zeroStats 5)
      [(True, Second, 0), (True, 2 * Second, 0), (True, 3 * Second, 0), (True, 4 * Second, 0),
       (True, 5 * Second, 0)])"
proof -
  let ?inputs = "[(True, Second, 0), (True, 2 * Second, 0), (True, 3 * Second, 0),
                  (True, 4 * Second, 0), (True, 5 * Second, 0)] :: outcomeInput list"
  have a: "?inputs \<noteq> []" "int (length ?inputs) < 2 ^ 31" by simp_all
  have b: "- (2 ^ 63) \<le> sum_list (durations ?inputs)" "sum_list (durations ?inputs) < 2 ^ 63"
    by (simp_all add: Second_def)
  have c: "avgDuration (recordAll (initialize zeroStats 5) ?inputs) = 3 * Second"
    by (simp add: recordResult_def initialize_def zeroStats_def avgDuration_def wrap32_def
      wrap64_def quo_def Hour_def Second_def Let_def)
  show ?thesis
    using min_avg_max_ordered [OF a b, of zeroStats 5] by (simp only: c)
qed

text \<open>
  Claim C9: the code does not compute the minimum.  \<open>initialize\<close> sets
  \<open>minDuration\<close> to one hour as its "large value"; one result of two hours leaves it
  there, where the reference computation has two hours.  The other fields agree.
\<close>

theorem minDuration_stays_one_hour:
  "minDuration (recordAll (initialize zeroStats 1) [(True, 2 * Hour, 0)]) = Hour \<and>
   minDuration (referenceStats 1 [(True, 2 * Hour, 0)]) = 2 * Hour \<and>
   recordAll (initialize zeroStats 1) [(True, 2 * Hour, 0)] =
     (referenceStats 1 [(True, 2 * Hour, 0)])\<lparr>minDuration := Hour\<rparr>"
  by (simp add: recordResult_def initialize_def zeroStats_def referenceStats_def wrap32_def
      wrap64_def Hour_def Let_def)

section \<open>The worker pool: proofs\<close>




lemma perform_order:
  "perform a p = Some p' \<Longrightarrow> enqueued p' @ toSend p' = enqueued p @ toSend p"
  by (cases a)
    (auto simp: collect_def Let_def split: list.splits if_splits worker.splits)

















lemma run_order:
  "run as p = Some p' \<Longrightarrow> enqueued p' @ toSend p' = enqueued p @ toSend p"
  by (induction as arbitrary: p) (auto split: option.splits dest: perform_order)






lemma start_facts:
  "enqueued (start projects n s) @ toSend (start projects n s) = projects"
  "mset (enqueued (start projects n s)) = accounted (start projects n s)"
  "stats (start projects n s) = recordAll s (map inputOf (results (start projects n s)))"
  "orderly (start projects n s)"
  "length (workers (start projects n s)) = n"
  "stepsLeft (start projects n s) = 5 * length projects + n + 3"
proof -
  have "inFlight (replicate n Waiting) = []"
    by (induction n) simp_all
  then show "mset (enqueued (start projects n s)) = accounted (start projects n s)"
    by (simp add: start_def accounted_def)
  have "sum_list (map workerSteps (replicate n Waiting)) = n"
    by (induction n) simp_all
  then show "stepsLeft (start projects n s) = 5 * length projects + n + 3"
    by (simp add: start_def stepsLeft_def)
  show "orderly (start projects n s)"
    by (simp add: start_def orderly_def)
qed (simp_all add: start_def)















section \<open>Project resolution and dispatch: proofs\<close>



lemma count_list_filter:
  "count_list (filter P xs) x = (if P x then count_list xs x else 0)"
  by (induction xs) auto

lemma count_list_prefix_le: "count_list xs x \<le> count_list (xs @ ys) x"
  by simp

text \<open>
  Claim C2, amended.  When the inventory query gives the projects \<open>allProjects\<close>, the
  valid list of \<open>GetProjectsFromList\<close> holds a project of the inventory as often as
  the caller's list names it, trimmed; it holds no project twice when the caller's
  entries, trimmed and without the empty ones, are distinct.  And
  \<open>processProjectsOptimized\<close>, given the valid list, sends a project to the workers at
  most as often as the list holds it.
\<close>

theorem valid_projects_as_often_as_requested:
  assumes "GetProjects w g [] [] True = ((allProjects, None), g')"
  shows "count_list (fst (fst (GetProjectsFromList w g projectsList))) project =
           (if project \<in> set allProjects
            then count_list (filter (\<lambda>p. p \<noteq> [])
                   (map TrimSpace (Split projectsList (CHR '','')))) project
            else 0) \<and>
         (distinct (filter (\<lambda>p. p \<noteq> []) (map TrimSpace (Split projectsList (CHR '','')))) \<longrightarrow>
            distinct (fst (fst (GetProjectsFromList w g projectsList)))) \<and>
         (run schedule (start (fst (fst (GetProjectsFromList w g projectsList))) n s) = Some p \<longrightarrow>
            count_list (enqueued p) project
              \<le> count_list (fst (fst (GetProjectsFromList w g projectsList))) project)"
proof -
  let ?entries = "filter (\<lambda>p. p \<noteq> []) (map TrimSpace (Split projectsList (CHR '','')))"
  let ?valid = "fst (fst (GetProjectsFromList w g projectsList))"
  have v: "?valid = filter (\<lambda>p. p \<in> set allProjects) ?entries"
    by (simp add: GetProjectsFromList_eq [OF assms])
  have 1: "count_list ?valid project =
             (if project \<in> set allProjects then count_list ?entries project else 0)"
    by (simp only: v count_list_filter)
  have 2: "distinct ?entries \<longrightarrow> distinct ?valid"
    by (simp only: v) (rule impI, rule distinct_filter)
  have 3: "run schedule (start ?valid n s) = Some p \<longrightarrow>
             count_list (enqueued p) project \<le> count_list ?valid project"
  proof
    assume r: "run schedule (start ?valid n s) = Some p"
    have "enqueued p @ toSend p = ?valid"
      using run_order [OF r] by (simp add: start_facts)
    then show "count_list (enqueued p) project \<le> count_list ?valid project"
      using count_list_prefix_le [of "enqueued p" project "toSend p"] by simp
  qed
  from 1 2 3 show ?thesis
    by (intro conjI)
qed

text \<open>
  Claim C2 as stated fails for a list that repeats a name: the valid list holds the
  project twice, and the pool sends it to the workers twice.
\<close>

theorem repeated_name_resolved_twice:
  "fst (GetProjectsFromList (app1Workspace []) fresh ''app1,app1'') =
     ([''app1'', ''app1''], [], None) \<and>
   enqueued (the (run (oneByOne None [''app1'', ''app1''])
     (start [''app1'', ''app1''] 1 (initialize zeroStats 2)))) = [''app1'', ''app1'']"
  by code_simp

theorem valid_projects_as_often_as_requested_witness:
  "fst (fst (GetProjectsFromList (app1Workspace []) fresh ''app2, ghost,app1'')) = [''app2'', ''app1''] \<and>
   distinct (fst (fst (GetProjectsFromList (app1Workspace []) fresh ''app2, ghost,app1''))) \<and>
   count_list (enqueued (the (run twoWorkersRun
     (start (fst (fst (GetProjectsFromList (app1Workspace []) fresh ''app2, ghost,app1''))) 2
        (initialize zeroStats 2))))) ''app1'' \<le> 1"
proof -
  let ?valid = "fst (fst (GetProjectsFromList (app1Workspace []) fresh ''app2, ghost,app1''))"
  have u: "GetProjects (app1Workspace []) fresh [] [] True =
             (([''app1'', ''app2''], None), snd (GetProjects (app1Workspace []) fresh [] [] True))"
    by code_simp
  have e: "filter (\<lambda>p. p \<noteq> []) (map TrimSpace (Split ''app2, ghost,app1'' (CHR '',''))) =
             [''app2'', ''ghost'', ''app1'']"
    by code_simp
  have v: "?valid = [''app2'', ''app1'']"
    by code_simp
  have "run twoWorkersRun (start ?valid 2 (initialize zeroStats 2)) \<noteq> None"
    by code_simp
  then have r: "run twoWorkersRun (start ?valid 2 (initialize zeroStats 2)) =
                  Some (the (run twoWorkersRun (start ?valid 2 (initialize zeroStats 2))))"
    by simp
  have c: "count_list ?valid ''app1'' = 1" and d: "distinct ?valid"
    using valid_projects_as_often_as_requested [OF u, of "''app2, ghost,app1''" "''app1''"]
    unfolding e by simp_all
  have "count_list (enqueued (the (run twoWorkersRun (start ?valid 2 (initialize zeroStats 2))))) ''app1''
          \<le> count_list ?valid ''app1''"
    using valid_projects_as_often_as_requested [OF u, of "''app2, ghost,app1''" "''app1''"
        twoWorkersRun 2 "initialize zeroStats 2"] r
    by blast
  then show ?thesis
    using c d v by simp
qed

section \<open>The exit status: proofs\<close>












section \<open>Counters that wrap around\<close>

















text \<open>
  Claim C8 as stated fails when a counter wraps around.  Two results of \<open>2^62\<close>
  nanoseconds each give the total \<open>-2^63\<close>, so the average is \<open>-2^62\<close>, below the
  minimum of one hour.  And \<open>2^31\<close> results of one nanosecond each give
  \<open>successful = -2^31\<close>, so the average is left at 0, below the minimum of one
  nanosecond.
\<close>

theorem average_below_minimum_on_wrap:
  "avgDuration (recordAll (initialize zeroStats 2) [(True, 2 ^ 62, 0), (True, 2 ^ 62, 0)])
     < minDuration (recordAll (initialize zeroStats 2) [(True, 2 ^ 62, 0), (True, 2 ^ 62, 0)]) \<and>
   avgDuration (recordAll (initialize zeroStats (int (length manyInputs))) manyInputs)
     < minDuration (recordAll (initialize zeroStats (int (length manyInputs))) manyInputs)"
proof -
  let ?S = "recordAll (initialize zeroStats (int (length manyInputs))) manyInputs"
  have 1: "avgDuration (recordAll (initialize zeroStats 2) [(True, 2 ^ 62, 0), (True, 2 ^ 62, 0)])
     < minDuration (recordAll (initialize zeroStats 2) [(True, 2 ^ 62, 0), (True, 2 ^ 62, 0)])"
    by (simp add: recordResult_def initialize_def zeroStats_def avgDuration_def wrap32_def
        wrap64_def quo_def Hour_def Let_def)
  have "filter fst manyInputs = manyInputs"
    by (simp add: manyInputs_def)
  then have "successful ?S = wrap32 (int (length manyInputs))"
    by (simp only: recorded_successful)
  then have su: "successful ?S = - (2 ^ 31)"
    by (simp add: manyInputs_def wrap32_def)
  have "filter (\<lambda>i. \<not> fst i) manyInputs = []"
    by (simp add: manyInputs_def)
  then have "failed ?S = wrap32 (int (length ([] :: outcomeInput list)))"
    by (simp only: recorded_failed)
  then have fa: "failed ?S = 0"
    by (simp add: wrap32_def)
  have avg: "avgDuration ?S = 0"
    by (simp add: avgDuration_def su fa wrap32_def)
  have "set (durations manyInputs) = {1}"
    by (simp add: manyInputs_def)
  then have "minDuration ?S = Min (insert Hour {1})"
    by (simp only: recordAll_minDuration initialize_fields)
  then have mn: "minDuration ?S = 1"
    by (simp add: Hour_def)
  from 1 avg mn show ?thesis
    by simp
qed


end
